theory Spec2Isabelle
  imports Main
begin

section \<open>JavaScript values and string helpers\<close>

text \<open>
  The handlers read scalar fields out of JSON request bodies.  A field is one of the
  scalar JavaScript values below (\<open>JUndefined\<close> is an absent field); numbers are the
  integers, written in decimal (the exponent notation that JavaScript uses from
  \<open>10\<^sup>2\<^sup>1\<close> on is not modelled).  Fields that carry
  arrays or objects are outside the model.  Strings are lists of characters.
\<close>

datatype jsval = JUndefined | JNull | JBool bool | JNum int | JStr string

text \<open>The truthiness test behind \<^verbatim>\<open>!x\<close>, \<^verbatim>\<open>x || y\<close> and \<^verbatim>\<open>x ? a : b\<close>.\<close>

fun truthy :: "jsval \<Rightarrow> bool" where
  "truthy JUndefined = False"
| "truthy JNull = False"
| "truthy (JBool b) = b"
| "truthy (JNum n) = (n \<noteq> 0)"
| "truthy (JStr s) = (s \<noteq> [])"

fun show_nat :: "nat \<Rightarrow> string" where
  "show_nat n =
     (if n < 10 then [''0123456789'' ! n]
      else show_nat (n div 10) @ [''0123456789'' ! (n mod 10)])"

declare show_nat.simps [simp del]

definition show_int :: "int \<Rightarrow> string" where
  "show_int n = (if n < 0 then CHR ''-'' # show_nat (nat (- n)) else show_nat (nat n))"

text \<open>\<^verbatim>\<open>String(v)\<close>, as a template literal \<^verbatim>\<open>`${v}`\<close> computes it.\<close>

fun js_string :: "jsval \<Rightarrow> string" where
  "js_string JUndefined = ''undefined''"
| "js_string JNull = ''null''"
| "js_string (JBool b) = (if b then ''true'' else ''false'')"
| "js_string (JNum n) = show_int n"
| "js_string (JStr s) = s"

text \<open>
  A query parameter handed to the PostgreSQL driver: \<^verbatim>\<open>undefined\<close> and \<^verbatim>\<open>null\<close> are sent
  as SQL NULL (\<open>None\<close>), every other scalar as its text.
\<close>

fun pg_text :: "jsval \<Rightarrow> string option" where
  "pg_text JUndefined = None"
| "pg_text JNull = None"
| "pg_text v = Some (js_string v)"

definition is_ws :: "char \<Rightarrow> bool" where
  "is_ws c = (c \<in> set [CHR 0x09, CHR 0x0A, CHR 0x0B, CHR 0x0C, CHR 0x0D, CHR '' ''])"

text \<open>
  \<^verbatim>\<open>String.prototype.trim\<close> on text of ASCII characters, where the white space is tab,
  line feed, vertical tab, form feed, carriage return and space.  JavaScript also strips
  the white space outside ASCII (U+00A0, U+FEFF, U+2028 and others); on text that has
  such characters the definition is not the function of the source.
\<close>

definition trim :: "string \<Rightarrow> string" where
  "trim s = rev (dropWhile is_ws (rev (dropWhile is_ws s)))"

definition lower_char :: "char \<Rightarrow> char" where
  "lower_char c =
     (case map_of (zip ''ABCDEFGHIJKLMNOPQRSTUVWXYZ'' ''abcdefghijklmnopqrstuvwxyz'') c of
        Some d \<Rightarrow> d
      | None \<Rightarrow> c)"

text \<open>
  \<^verbatim>\<open>toLowerCase\<close>, and the case folding of \<^verbatim>\<open>ILIKE\<close>, on text of ASCII characters.
  JavaScript and \<^verbatim>\<open>ILIKE\<close> also fold the letters outside ASCII; on text that has such
  letters the definition is not the function of the source.
\<close>

definition toLowerCase :: "string \<Rightarrow> string" where
  "toLowerCase s = map lower_char s"

fun starts_with :: "string \<Rightarrow> string \<Rightarrow> bool" where
  "starts_with t [] = True"
| "starts_with [] (c # s) = False"
| "starts_with (d # t) (c # s) = (d = c \<and> starts_with t s)"

text \<open>\<^verbatim>\<open>t.includes(s)\<close>: \<open>s\<close> occurs in \<open>t\<close> as a contiguous, literal substring.\<close>

fun js_includes :: "string \<Rightarrow> string \<Rightarrow> bool" where
  "js_includes [] s = (s = [])"
| "js_includes (d # t) s = (starts_with (d # t) s \<or> js_includes t s)"

subsection \<open>parseInt and number arithmetic\<close>

text \<open>
  \<^verbatim>\<open>parseInt(s)\<close> without a radix: leading white space is skipped, a sign is read, a
  \<^verbatim>\<open>0x\<close> prefix selects base 16, and the longest prefix of digits is the value; when there
  is no digit the result is \<^verbatim>\<open>NaN\<close>, which is \<open>None\<close> here.

  The numbers of the source are IEEE doubles, which hold the integers exactly up to
  \<open>2\<^sup>5\<^sup>3\<close>; the definitions below compute with the integers themselves, and are the
  functions of the source as long as no value exceeds that bound.
\<close>

definition digit_val :: "char \<Rightarrow> nat option" where
  "digit_val c =
     (let n = (of_char c :: nat) in
      if 48 \<le> n \<and> n \<le> 57 then Some (n - 48)
      else if 97 \<le> n \<and> n \<le> 122 then Some (n - 87)
      else if 65 \<le> n \<and> n \<le> 90 then Some (n - 55)
      else None)"

definition is_digit :: "nat \<Rightarrow> char \<Rightarrow> bool" where
  "is_digit radix c = (case digit_val c of None \<Rightarrow> False | Some d \<Rightarrow> d < radix)"

definition parse_digits :: "nat \<Rightarrow> string \<Rightarrow> int option" where
  "parse_digits radix s =
     (let ds = takeWhile (is_digit radix) s in
      if ds = [] then None
      else Some (int (foldl (\<lambda>acc c. acc * radix + the (digit_val c)) 0 ds)))"

definition parseInt :: "string \<Rightarrow> int option" where
  "parseInt s =
     (let s1 = dropWhile is_ws s;
          neg = (s1 \<noteq> [] \<and> hd s1 = CHR ''-'');
          s2 = (if s1 \<noteq> [] \<and> (hd s1 = CHR ''-'' \<or> hd s1 = CHR ''+'') then tl s1 else s1);
          hex = (starts_with s2 ''0x'' \<or> starts_with s2 ''0X'');
          v = (if hex then parse_digits 16 (drop 2 s2) else parse_digits 10 s2)
      in map_option (\<lambda>n. if neg then - n else n) v)"

text \<open>Products and sums of numbers, \<^verbatim>\<open>NaN\<close> propagating.\<close>

definition js_mul :: "int option \<Rightarrow> int option \<Rightarrow> int option" where
  "js_mul a b = (case (a, b) of (Some x, Some y) \<Rightarrow> Some (x * y) | _ \<Rightarrow> None)"

definition js_add :: "int option \<Rightarrow> int option \<Rightarrow> int option" where
  "js_add a b = (case (a, b) of (Some x, Some y) \<Rightarrow> Some (x + y) | _ \<Rightarrow> None)"

text \<open>
  \<^verbatim>\<open>Math.ceil(a / b)\<close> for a count \<open>a\<close>, as the JSON response shows it: a division by
  zero or by \<^verbatim>\<open>NaN\<close> gives \<^verbatim>\<open>NaN\<close> or an infinity, and \<^verbatim>\<open>res.json\<close> writes each of them
  as \<^verbatim>\<open>null\<close> (\<open>None\<close>).
\<close>

definition ceil_div :: "nat \<Rightarrow> int option \<Rightarrow> int option" where
  "ceil_div a b =
     (case b of
        None \<Rightarrow> None
      | Some d \<Rightarrow> if d = 0 then None else Some (- ((- int a) div d)))"

text \<open>\<^verbatim>\<open>xs.slice(start, end)\<close>: \<^verbatim>\<open>NaN\<close> counts as 0, a negative index counts from the end.\<close>

definition slice_index :: "nat \<Rightarrow> int option \<Rightarrow> nat" where
  "slice_index len i =
     (case i of
        None \<Rightarrow> 0
      | Some v \<Rightarrow> if v < 0 then nat (max (int len + v) 0) else min (nat v) len)"

definition js_slice :: "'a list \<Rightarrow> int option \<Rightarrow> int option \<Rightarrow> 'a list" where
  "js_slice xs start stop =
     (let k = slice_index (length xs) start; final = slice_index (length xs) stop
      in take (final - k) (drop k xs))"

section \<open>The PostgreSQL store\<close>

text \<open>
  The two tables of \<^verbatim>\<open>initializeDatabase\<close>.  A nullable column is an \<open>option\<close>; a
  \<^verbatim>\<open>NOT NULL\<close> column is not.  The \<^verbatim>\<open>timestamp\<close> and \<^verbatim>\<open>activated_at\<close> columns are
  nullable in the schema, but every statement of the handlers that writes them writes a
  value, so the rows carry one.  Points in time are milliseconds as integers, and
  \<open>now\<close> is the clock reading a handler takes.  The verifier's purchase blob is kept as
  its JSON text.

  Beside the tables and their sequences the state counts the clients that handlers have
  taken from the connection pool and not released (\<open>clients_out\<close>): the handlers of the
  history release their client only on the path that ends in success.
\<close>

record history_row =
  h_id :: nat
  h_user_id :: string
  h_item_id :: string
  h_prompt :: string
  h_image_url :: "string option"
  h_original_image_url :: "string option"
  h_frame_id :: "string option"
  h_frame_name :: "string option"
  h_timestamp :: int
  h_quality :: "string option"
  h_width :: "int option"
  h_height :: "int option"
  h_created_at :: int

record license_row =
  l_id :: nat
  l_license_key :: string
  l_user_id :: string
  l_product_id :: string
  l_product_tier :: string
  l_flowers_granted :: int
  l_activated_at :: int
  l_gumroad_data :: "string option"
  l_status :: string

record db =
  user_history :: "history_row list"
  user_history_seq :: nat
  license_usage :: "license_row list"
  license_usage_seq :: nat
  clients_out :: nat

definition empty_db :: db where
  "empty_db =
     \<lparr>user_history = [], user_history_seq = 1, license_usage = [], license_usage_seq = 1,
      clients_out = 0\<rparr>"

datatype db_error =
    NotNullViolation string
  | UniqueViolation string
  | StringTooLong nat
  | IntegerOutOfRange
  | InvalidDatetime
  | InvalidRowCount
  | InvalidEscape

text \<open>
  Storing into a \<^verbatim>\<open>VARCHAR(n)\<close> column: a longer value is an error, unless all that
  exceeds \<open>n\<close> characters is spaces, which are cut off.
\<close>

definition varchar :: "nat \<Rightarrow> string \<Rightarrow> db_error + string" where
  "varchar n s =
     (if length s \<le> n then Inr s
      else if list_all (\<lambda>c. c = CHR '' '') (drop n s) then Inr (take n s)
      else Inl (StringTooLong n))"

definition varchar_null :: "nat \<Rightarrow> string option \<Rightarrow> db_error + string option" where
  "varchar_null n v =
     (case v of
        None \<Rightarrow> Inr None
      | Some s \<Rightarrow> (case varchar n s of Inl e \<Rightarrow> Inl e | Inr s' \<Rightarrow> Inr (Some s')))"

definition not_null :: "string \<Rightarrow> 'a option \<Rightarrow> db_error + 'a" where
  "not_null column v = (case v of None \<Rightarrow> Inl (NotNullViolation column) | Some x \<Rightarrow> Inr x)"

text \<open>An \<^verbatim>\<open>INTEGER\<close> column holds 32 bits.\<close>

definition integer_null :: "int option \<Rightarrow> db_error + int option" where
  "integer_null v =
     (case v of
        None \<Rightarrow> Inr None
      | Some n \<Rightarrow> if - 2147483648 \<le> n \<and> n \<le> 2147483647 then Inr v else Inl IntegerOutOfRange)"

text \<open>Sequencing of steps that may fail, the first error ending the statement.\<close>

definition bind_err :: "'e + 'a \<Rightarrow> ('a \<Rightarrow> 'e + 'b) \<Rightarrow> 'e + 'b" where
  "bind_err m f = (case m of Inl e \<Rightarrow> Inl e | Inr x \<Rightarrow> f x)"

text \<open>
  An \<^verbatim>\<open>INSERT\<close> takes the next value of the \<^verbatim>\<open>SERIAL\<close> sequence when it forms its row,
  and a refused row does not give the value back.  A value that does not fit the type of
  its column is refused before the row is formed; the \<^verbatim>\<open>NOT NULL\<close> and \<^verbatim>\<open>UNIQUE\<close>
  constraints are checked on the formed row.
\<close>

fun consumes_sequence :: "db_error \<Rightarrow> bool" where
  "consumes_sequence (NotNullViolation column) = True"
| "consumes_sequence (UniqueViolation column) = True"
| "consumes_sequence e = False"

subsection \<open>LIKE patterns\<close>

text \<open>
  In a \<^verbatim>\<open>LIKE\<close> pattern \<^verbatim>\<open>%\<close> stands for any sequence of characters, \<^verbatim>\<open>_\<close> for any one
  character, and a backslash makes the next character literal; a pattern that ends in a
  lone backslash is an error.  \<^verbatim>\<open>ILIKE\<close> compares without regard to case.
\<close>

datatype like_tok = AnySeq | AnyOne | Lit char

fun like_tokens :: "string \<Rightarrow> like_tok list option" where
  "like_tokens [] = Some []"
| "like_tokens (c # cs) =
     (if c = CHR 0x5C then
        (case cs of
           [] \<Rightarrow> None
         | d # ds \<Rightarrow> map_option ((#) (Lit d)) (like_tokens ds))
      else if c = CHR ''%'' then map_option ((#) AnySeq) (like_tokens cs)
      else if c = CHR ''_'' then map_option ((#) AnyOne) (like_tokens cs)
      else map_option ((#) (Lit c)) (like_tokens cs))"

fun like_match :: "like_tok list \<Rightarrow> string \<Rightarrow> bool" where
  "like_match [] t = (t = [])"
| "like_match (Lit c # ps) [] = False"
| "like_match (Lit c # ps) (x # xs) = (x = c \<and> like_match ps xs)"
| "like_match (AnyOne # ps) [] = False"
| "like_match (AnyOne # ps) (x # xs) = like_match ps xs"
| "like_match (AnySeq # ps) [] = like_match ps []"
| "like_match (AnySeq # ps) (x # xs) = (like_match ps (x # xs) \<or> like_match (AnySeq # ps) xs)"

definition ilike :: "string \<Rightarrow> string \<Rightarrow> bool option" where
  "ilike text pattern =
     map_option (\<lambda>ps. like_match ps (toLowerCase text)) (like_tokens (toLowerCase pattern))"

subsection \<open>Statements on user_history\<close>

text \<open>
  \<^verbatim>\<open>WHERE user_id = $1\<close>, with \<^verbatim>\<open>AND prompt ILIKE $2\<close> when a pattern is given.
\<close>

definition matching_rows :: "db \<Rightarrow> string \<Rightarrow> string option \<Rightarrow> db_error + history_row list" where
  "matching_rows d userId pattern =
     (case pattern of
        None \<Rightarrow> Inr (filter (\<lambda>r. h_user_id r = userId) (user_history d))
      | Some p \<Rightarrow>
          (case like_tokens (toLowerCase p) of
             None \<Rightarrow> Inl InvalidEscape
           | Some ps \<Rightarrow>
               Inr (filter (\<lambda>r. h_user_id r = userId \<and> ilike (h_prompt r) p = Some True)
                      (user_history d))))"

text \<open>
  \<^verbatim>\<open>ORDER BY timestamp DESC\<close>.  PostgreSQL leaves the order of rows with equal
  timestamps open; the model keeps them in table order.
\<close>

definition by_timestamp_desc :: "history_row list \<Rightarrow> history_row list" where
  "by_timestamp_desc rows = sort_key (\<lambda>r. - h_timestamp r) rows"

text \<open>
  A number bound to \<^verbatim>\<open>LIMIT\<close> or \<^verbatim>\<open>OFFSET\<close>: \<^verbatim>\<open>NaN\<close>, a negative number and a number
  beyond 64 bits are errors of the statement.
\<close>

definition row_count_param :: "int option \<Rightarrow> db_error + nat" where
  "row_count_param v =
     (case v of
        None \<Rightarrow> Inl InvalidRowCount
      | Some n \<Rightarrow> if n < 0 \<or> 9223372036854775808 \<le> n then Inl InvalidRowCount else Inr (nat n))"

definition select_history ::
  "db \<Rightarrow> string \<Rightarrow> string option \<Rightarrow> (int option \<times> int option) option \<Rightarrow> db_error + history_row list"
where
  "select_history d userId pattern paging =
     bind_err (matching_rows d userId pattern) (\<lambda>rows.
       (case paging of
          None \<Rightarrow> Inr (by_timestamp_desc rows)
        | Some (lim, off) \<Rightarrow>
            bind_err (row_count_param lim) (\<lambda>l.
            bind_err (row_count_param off) (\<lambda>k.
              Inr (take l (drop k (by_timestamp_desc rows)))))))"

definition count_history :: "db \<Rightarrow> string \<Rightarrow> string option \<Rightarrow> db_error + nat" where
  "count_history d userId pattern =
     bind_err (matching_rows d userId pattern) (\<lambda>rows. Inr (length rows))"

text \<open>
  The values of \<^verbatim>\<open>INSERT INTO user_history ... VALUES ($1, ..., $11)\<close>, in the order of
  the statement.
\<close>

record history_values =
  v_user_id :: "string option"
  v_item_id :: "string option"
  v_prompt :: "string option"
  v_image_url :: "string option"
  v_original_image_url :: "string option"
  v_frame_id :: "string option"
  v_frame_name :: "string option"
  v_quality :: "string option"
  v_width :: "int option"
  v_height :: "int option"
  v_timestamp :: "int option"

text \<open>
  The proposed row: every value is brought to its column's type, then the \<^verbatim>\<open>NOT NULL\<close>
  constraints are checked, before any conflict is looked for.  \<open>None\<close> as the timestamp
  is a \<^verbatim>\<open>Date\<close> that is not a point in time.
\<close>

definition proposed_row :: "int \<Rightarrow> nat \<Rightarrow> history_values \<Rightarrow> db_error + history_row" where
  "proposed_row now new_id v =
     bind_err (varchar_null 255 (v_user_id v)) (\<lambda>u0.
     bind_err (varchar_null 255 (v_item_id v)) (\<lambda>i0.
     bind_err (varchar_null 255 (v_frame_id v)) (\<lambda>fid.
     bind_err (varchar_null 255 (v_frame_name v)) (\<lambda>fname.
     bind_err (varchar_null 50 (v_quality v)) (\<lambda>q.
     bind_err (integer_null (v_width v)) (\<lambda>w.
     bind_err (integer_null (v_height v)) (\<lambda>h.
     (case v_timestamp v of
        None \<Rightarrow> Inl InvalidDatetime
      | Some t \<Rightarrow>
          bind_err (not_null ''user_id'' u0) (\<lambda>u.
          bind_err (not_null ''item_id'' i0) (\<lambda>i.
          bind_err (not_null ''prompt'' (v_prompt v)) (\<lambda>p.
            Inr \<lparr>h_id = new_id, h_user_id = u, h_item_id = i, h_prompt = p,
                 h_image_url = v_image_url v, h_original_image_url = v_original_image_url v,
                 h_frame_id = fid, h_frame_name = fname, h_timestamp = t, h_quality = q,
                 h_width = w, h_height = h, h_created_at = now\<rparr>)))))))))))"

text \<open>
  \<^verbatim>\<open>ON CONFLICT (item_id) DO UPDATE SET prompt, image_url, original_image_url,
  timestamp\<close>: the row that holds the item id keeps its id, its user and its other
  columns.
\<close>

definition conflict_update :: "history_row \<Rightarrow> history_row \<Rightarrow> history_row" where
  "conflict_update excluded r =
     (if h_item_id r = h_item_id excluded
      then r\<lparr>h_prompt := h_prompt excluded, h_image_url := h_image_url excluded,
              h_original_image_url := h_original_image_url excluded,
              h_timestamp := h_timestamp excluded\<rparr>
      else r)"

text \<open>
  The \<^verbatim>\<open>INSERT ... ON CONFLICT\<close> as a whole.  A refused statement gives the error and
  the store it leaves: the tables as they were, the sequence advanced when the row had
  been formed.
\<close>

definition upsert_history :: "int \<Rightarrow> db \<Rightarrow> history_values \<Rightarrow> db_error \<times> db + db" where
  "upsert_history now d v =
     (case proposed_row now (user_history_seq d) v of
        Inl e \<Rightarrow>
          Inl (e, if consumes_sequence e
                  then d\<lparr>user_history_seq := Suc (user_history_seq d)\<rparr> else d)
      | Inr row \<Rightarrow>
          Inr (if list_ex (\<lambda>r. h_item_id r = h_item_id row) (user_history d)
               then d\<lparr>user_history := map (conflict_update row) (user_history d),
                       user_history_seq := Suc (user_history_seq d)\<rparr>
               else d\<lparr>user_history := user_history d @ [row],
                       user_history_seq := Suc (user_history_seq d)\<rparr>))"

text \<open>
  \<^verbatim>\<open>DELETE FROM user_history WHERE user_id = $1 AND id NOT IN (SELECT id FROM
  user_history WHERE user_id = $2 ORDER BY timestamp DESC LIMIT 50)\<close>.
\<close>

definition recent_ids :: "db \<Rightarrow> string \<Rightarrow> nat list" where
  "recent_ids d userId =
     map h_id (take 50 (by_timestamp_desc (filter (\<lambda>r. h_user_id r = userId) (user_history d))))"

definition delete_old_history :: "db \<Rightarrow> string \<Rightarrow> string \<Rightarrow> db" where
  "delete_old_history d userId1 userId2 =
     d\<lparr>user_history :=
         filter (\<lambda>r. \<not> (h_user_id r = userId1 \<and> h_id r \<notin> set (recent_ids d userId2)))
           (user_history d)\<rparr>"

text \<open>
  \<^verbatim>\<open>UPDATE user_history SET frame_id = $1 WHERE user_id = $2 AND item_id = $3\<close>, with
  the number of rows it changed.  The value is brought to the type of the column before
  the rows are looked for.
\<close>

definition update_frame_id ::
  "db \<Rightarrow> string option \<Rightarrow> string option \<Rightarrow> string option \<Rightarrow> db_error + (db \<times> nat)"
where
  "update_frame_id d frame userId item =
     bind_err (varchar_null 255 frame) (\<lambda>fid.
       let hit = (\<lambda>r. Some (h_user_id r) = userId \<and> Some (h_item_id r) = item) in
       Inr (d\<lparr>user_history :=
                 map (\<lambda>r. if hit r then r\<lparr>h_frame_id := fid\<rparr> else r) (user_history d)\<rparr>,
            length (filter hit (user_history d))))"

section \<open>The handlers of the PostgreSQL server\<close>

text \<open>
  A response is the HTTP status and the JSON body; each shape of body that a handler
  sends is a constructor.  \<open>ErrorDetails\<close> carries the error of the database where the
  source sends \<^verbatim>\<open>error.message\<close>.
\<close>

record page_item =
  p_id :: string
  p_prompt :: string
  p_imageUrl :: "string option"
  p_originalImageUrl :: "string option"
  p_frameId :: "string option"
  p_frameName :: "string option"
  p_timestamp :: int
  p_quality :: "string option"
  p_width :: "int option"
  p_height :: "int option"

datatype body =
    Error string
  | ErrorDetails string db_error
  | HistoryPage "page_item list" "int option" "int option" nat
  | Saved nat
  | FrameUpdated string nat
  | FrameNotFound string
  | AlreadyUsed string
  | LicenseVerified "string option" "string option" "int option" "int option"
  | VerificationFailed string
  | LicenseError string

record response =
  status :: nat
  body :: body

subsection \<open>The connection pool\<close>

text \<open>
  Each handler that reaches the store first takes a client with \<^verbatim>\<open>pool.connect()\<close>.  The
  pool hands out a client while fewer than \<open>max_clients\<close> are out (the size of the pool is
  set by the driver, not by the source, which also sets no timeout); when none is left
  the call waits for a release.  A handler that ends without \<^verbatim>\<open>client.release()\<close> keeps
  its client out for good.
\<close>

definition keep_client :: "db \<Rightarrow> db" where
  "keep_client d = d\<lparr>clients_out := Suc (clients_out d)\<rparr>"


subsection \<open>GET /api/history/:userId\<close>

text \<open>
  The query string: an absent parameter takes its default (\<^verbatim>\<open>page = 0\<close>,
  \<^verbatim>\<open>limit = 10\<close>, \<^verbatim>\<open>search = ''\<close>).  The defaults are numbers in the source; the handler
  only tests them for truth, compares them with \<^verbatim>\<open>'all'\<close> and passes them to
  \<^verbatim>\<open>parseInt\<close>, where they behave as their decimal strings.
\<close>

record history_query =
  q_page :: "string option"
  q_limit :: "string option"
  q_search :: "string option"

definition format_item :: "history_row \<Rightarrow> page_item" where
  "format_item row =
     \<lparr>p_id = h_item_id row, p_prompt = h_prompt row, p_imageUrl = h_image_url row,
      p_originalImageUrl = h_original_image_url row, p_frameId = h_frame_id row,
      p_frameName = h_frame_name row, p_timestamp = h_timestamp row,
      p_quality = h_quality row, p_width = h_width row, p_height = h_height row\<rparr>"

definition search_pattern :: "string \<Rightarrow> string option" where
  "search_pattern search =
     (if search \<noteq> [] \<and> trim search \<noteq> [] then Some (''%'' @ trim search @ ''%'') else None)"

definition get_history :: "db \<Rightarrow> string \<Rightarrow> history_query \<Rightarrow> response" where
  "get_history d userId q =
     (let page = (case q_page q of None \<Rightarrow> ''0'' | Some p \<Rightarrow> p);
          limit = (case q_limit q of None \<Rightarrow> ''10'' | Some l \<Rightarrow> l);
          search = (case q_search q of None \<Rightarrow> [] | Some s \<Rightarrow> s);
          pattern = search_pattern search;
          paging = (if limit \<noteq> [] \<and> limit \<noteq> ''all''
                    then Some (parseInt limit, js_mul (parseInt page) (parseInt limit))
                    else None)
      in case select_history d userId pattern paging of
           Inl e \<Rightarrow> \<lparr>status = 500, body = Error ''Failed to get history''\<rparr>
         | Inr rows \<Rightarrow>
             (case count_history d userId pattern of
                Inl e \<Rightarrow> \<lparr>status = 500, body = Error ''Failed to get history''\<rparr>
              | Inr totalItems \<Rightarrow>
                  (let limitNum = (if limit = ''all'' then Some (int totalItems) else parseInt limit);
                       totalPages = ceil_div totalItems limitNum
                   in \<lparr>status = 200,
                       body = HistoryPage (map format_item rows) totalPages (parseInt page)
                                totalItems\<rparr>)))"

text \<open>
  The handler changes no table; \<open>get_history\<close> is its response.  With the state: the
  client is released after the two queries, and the \<^verbatim>\<open>catch\<close> that answers with status
  500 does not release it.
\<close>

definition get_history_request :: "db \<Rightarrow> string \<Rightarrow> history_query \<Rightarrow> db \<times> response" where
  "get_history_request d userId q =
     (let r = get_history d userId q
      in (if status r = 500 then keep_client d else d, r))"

subsection \<open>POST /api/history/:userId\<close>

text \<open>
  The body of the request.  \<open>hi_width\<close> and \<open>hi_height\<close> are
  \<^verbatim>\<open>dimensions?.width\<close> and \<^verbatim>\<open>dimensions?.height\<close>.  The \<^verbatim>\<open>timestamp\<close> field is absent or
  falsy (\<open>NoDate\<close>), or a value that \<^verbatim>\<open>new Date\<close> reads as a point in time (\<open>DateAt\<close>),
  or one that it does not (\<open>BadDate\<close>).
\<close>

datatype date_input = NoDate | DateAt int | BadDate

record history_item =
  hi_id :: jsval
  hi_prompt :: jsval
  hi_imageUrl :: jsval
  hi_originalImageUrl :: jsval
  hi_frameId :: jsval
  hi_frameName :: jsval
  hi_quality :: jsval
  hi_width :: "int option"
  hi_height :: "int option"
  hi_timestamp :: date_input

definition insert_values :: "int \<Rightarrow> string \<Rightarrow> history_item \<Rightarrow> history_values" where
  "insert_values now userId historyItem =
     \<lparr>v_user_id = Some userId,
      v_item_id = pg_text (hi_id historyItem),
      v_prompt = pg_text (hi_prompt historyItem),
      v_image_url = pg_text (hi_imageUrl historyItem),
      v_original_image_url = pg_text (hi_originalImageUrl historyItem),
      v_frame_id = pg_text (hi_frameId historyItem),
      v_frame_name = pg_text (hi_frameName historyItem),
      v_quality = pg_text (hi_quality historyItem),
      v_width = hi_width historyItem,
      v_height = hi_height historyItem,
      v_timestamp = (case hi_timestamp historyItem of
                       NoDate \<Rightarrow> Some now
                     | DateAt t \<Rightarrow> Some t
                     | BadDate \<Rightarrow> None)\<rparr>"

text \<open>
  The handler from the point where it holds a client.  \<^verbatim>\<open>client.release()\<close> stands after
  the three statements; the \<^verbatim>\<open>catch\<close> answers with status 500 and does not release.
\<close>

definition post_history :: "int \<Rightarrow> db \<Rightarrow> string \<Rightarrow> history_item \<Rightarrow> db \<times> response" where
  "post_history now d userId historyItem =
     (case upsert_history now d (insert_values now userId historyItem) of
        Inl (e, d0) \<Rightarrow>
          (keep_client d0, \<lparr>status = 500, body = ErrorDetails ''Failed to save history'' e\<rparr>)
      | Inr d1 \<Rightarrow>
          (case count_history d1 userId None of
             Inl e \<Rightarrow>
               (keep_client d1,
                \<lparr>status = 500, body = ErrorDetails ''Failed to save history'' e\<rparr>)
           | Inr countResult \<Rightarrow>
               (delete_old_history d1 userId userId,
                \<lparr>status = 200, body = Saved countResult\<rparr>)))"


subsection \<open>POST /api/history/:userId/update-frame\<close>

record frame_body =
  f_itemId :: jsval
  f_frameId :: jsval

definition update_frame :: "db \<Rightarrow> string \<Rightarrow> frame_body \<Rightarrow> db \<times> response" where
  "update_frame d userId b =
     (if \<not> truthy (f_itemId b) \<or> \<not> truthy (f_frameId b)
      then (d, \<lparr>status = 400, body = Error ''itemId and frameId are required''\<rparr>)
      else
        (case update_frame_id d (pg_text (f_frameId b)) (Some userId) (pg_text (f_itemId b)) of
           Inl e \<Rightarrow>
             (keep_client d, \<lparr>status = 500, body = ErrorDetails ''Failed to update frame ID'' e\<rparr>)
         | Inr (d1, rowCount) \<Rightarrow>
             if rowCount > 0
             then (d1, \<lparr>status = 200,
                        body = FrameUpdated (''Updated frameId for item '' @ js_string (f_itemId b))
                                 rowCount\<rparr>)
             else (d1, \<lparr>status = 404,
                        body = FrameNotFound (''No history item found with id ''
                                 @ js_string (f_itemId b) @ '' for user '' @ userId)\<rparr>)))"

subsection \<open>POST /api/verify-license\<close>

record license_body =
  b_productId :: jsval
  b_licenseKey :: jsval
  b_userId :: jsval

text \<open>
  The form posted to the verifier, and what comes back: \<open>FetchFailed\<close> when \<^verbatim>\<open>fetch\<close> or
  \<^verbatim>\<open>response.json()\<close> throws, otherwise \<^verbatim>\<open>response.ok\<close> with the fields of the parsed
  body that the handler reads (\<^verbatim>\<open>data.success\<close> as its truth value, \<^verbatim>\<open>data.message\<close>,
  and \<^verbatim>\<open>data.purchase\<close> as JSON text).  The verifier itself is a function from the form
  to such a result.
\<close>

record verify_form =
  access_token :: string
  product_id :: string
  license_key :: string
  increment_uses_count :: string

record gumroad_data =
  g_success :: bool
  g_message :: "string option"
  g_purchase :: "string option"

datatype fetch_result = FetchFailed | Fetched bool gumroad_data

subsubsection \<open>Statements on license_usage\<close>

definition select_license :: "db \<Rightarrow> string option \<Rightarrow> license_row list" where
  "select_license d key = filter (\<lambda>r. Some (l_license_key r) = key) (license_usage d)"

text \<open>
  The row of \<^verbatim>\<open>INSERT INTO license_usage\<close>: the values brought to the types of their
  columns, then the \<^verbatim>\<open>NOT NULL\<close> constraints; \<^verbatim>\<open>activated_at\<close> and \<^verbatim>\<open>status\<close> take their
  defaults.
\<close>

definition proposed_license ::
  "int \<Rightarrow> nat \<Rightarrow> string option \<Rightarrow> string option \<Rightarrow> string option \<Rightarrow> string option \<Rightarrow>
   int option \<Rightarrow> string option \<Rightarrow> db_error + license_row"
where
  "proposed_license now new_id key user product tier flowers data =
     bind_err (varchar_null 255 key) (\<lambda>k0.
     bind_err (varchar_null 255 user) (\<lambda>u0.
     bind_err (varchar_null 255 product) (\<lambda>p0.
     bind_err (varchar_null 50 tier) (\<lambda>t0.
     bind_err (integer_null flowers) (\<lambda>f0.
     bind_err (not_null ''license_key'' k0) (\<lambda>k.
     bind_err (not_null ''user_id'' u0) (\<lambda>u.
     bind_err (not_null ''product_id'' p0) (\<lambda>p.
     bind_err (not_null ''product_tier'' t0) (\<lambda>t.
     bind_err (not_null ''flowers_granted'' f0) (\<lambda>f.
       Inr \<lparr>l_id = new_id, l_license_key = k, l_user_id = u, l_product_id = p,
            l_product_tier = t, l_flowers_granted = f, l_activated_at = now,
            l_gumroad_data = data, l_status = ''active''\<rparr>))))))))))"

text \<open>
  The \<^verbatim>\<open>INSERT\<close> as a whole, with the \<^verbatim>\<open>UNIQUE\<close> constraint on the key.  A refused
  statement gives the error and the store it leaves: the table as it was, the sequence
  advanced when the row had been formed.
\<close>

definition insert_license ::
  "int \<Rightarrow> db \<Rightarrow> string option \<Rightarrow> string option \<Rightarrow> string option \<Rightarrow> string option \<Rightarrow>
   int option \<Rightarrow> string option \<Rightarrow> db_error \<times> db + db"
where
  "insert_license now d key user product tier flowers data =
     (case proposed_license now (license_usage_seq d) key user product tier flowers data of
        Inl e \<Rightarrow>
          Inl (e, if consumes_sequence e
                  then d\<lparr>license_usage_seq := Suc (license_usage_seq d)\<rparr> else d)
      | Inr row \<Rightarrow>
          if list_ex (\<lambda>r. l_license_key r = l_license_key row) (license_usage d)
          then Inl (UniqueViolation ''license_key'',
                    d\<lparr>license_usage_seq := Suc (license_usage_seq d)\<rparr>)
          else Inr (d\<lparr>license_usage := license_usage d @ [row],
                       license_usage_seq := Suc (license_usage_seq d)\<rparr>))"

subsubsection \<open>The product table\<close>

definition productTierMap :: "(string \<times> string \<times> int) list" where
  "productTierMap =
     [(''2FqGqjM16Jjs0NDRtncN4g=='', ''starter'', 50),
      (''wIY3NX2VLnJ48nTz0ZVTIA=='', ''creator'', 130),
      (''711rWT3AqbdSnNL0p9MxIw=='', ''pro'', 300)]"

text \<open>
  \<^verbatim>\<open>productTierMap\<close> is an object literal, so a lookup also finds what every object
  inherits.  Each inherited value is truthy and has neither a \<^verbatim>\<open>tier\<close> nor a
  \<^verbatim>\<open>flowers\<close> property.
\<close>

definition inherited_keys :: "string list" where
  "inherited_keys =
     [''constructor'', ''hasOwnProperty'', ''isPrototypeOf'', ''propertyIsEnumerable'',
      ''toLocaleString'', ''toString'', ''valueOf'', ''__proto__'', ''__defineGetter__'',
      ''__defineSetter__'', ''__lookupGetter__'', ''__lookupSetter__'']"

text \<open>\<^verbatim>\<open>productTierMap[productId] || { tier: 'unknown', flowers: 0 }\<close>, as tier and flowers.\<close>

definition productInfo :: "string \<Rightarrow> string option \<times> int option" where
  "productInfo key =
     (case map_of productTierMap key of
        Some (tier, flowers) \<Rightarrow> (Some tier, Some flowers)
      | None \<Rightarrow> if key \<in> set inherited_keys then (None, None) else (Some ''unknown'', Some 0))"

subsubsection \<open>The handler\<close>

text \<open>
  The handler runs in two parts around its call of the verifier.  \<open>license_precheck\<close> is
  the code up to the \<^verbatim>\<open>fetch\<close>: the check of the fields, the \<^verbatim>\<open>SELECT\<close> on the key and
  the check of the access token; it ends the request with a response or gives the form
  to post.  \<open>license_record\<close> is the code after the \<^verbatim>\<open>fetch\<close>: it sees the store as it is
  then.  Every path of this handler releases its client.  \<open>toLocaleDateString\<close> is the
  formatting of a date by the host.
\<close>

definition license_precheck ::
  "(int \<Rightarrow> string) \<Rightarrow> string option \<Rightarrow> db \<Rightarrow> license_body \<Rightarrow> response + verify_form"
where
  "license_precheck toLocaleDateString token d b =
     (if \<not> truthy (b_productId b) \<or> \<not> truthy (b_licenseKey b) \<or> \<not> truthy (b_userId b)
      then Inl \<lparr>status = 400, body = Error ''productId, licenseKey, and userId are required''\<rparr>
      else
        (case select_license d (pg_text (b_licenseKey b)) of
           usage # rest \<Rightarrow>
             Inl \<lparr>status = 200,
                  body = AlreadyUsed (''This license key has already been activated on ''
                           @ toLocaleDateString (l_activated_at usage) @ '' by user ''
                           @ l_user_id usage @ ''. Each license can only be used once.'')\<rparr>
         | [] \<Rightarrow>
             (case token of
                None \<Rightarrow> Inl \<lparr>status = 500, body = Error ''Gumroad access token not configured''\<rparr>
              | Some t \<Rightarrow>
                  if t = [] then
                    Inl \<lparr>status = 500, body = Error ''Gumroad access token not configured''\<rparr>
                  else
                    Inr \<lparr>access_token = t, product_id = js_string (b_productId b),
                         license_key = js_string (b_licenseKey b),
                         increment_uses_count = ''false''\<rparr>)))"

definition license_record :: "int \<Rightarrow> db \<Rightarrow> license_body \<Rightarrow> fetch_result \<Rightarrow> db \<times> response" where
  "license_record now d b res =
     (case res of
        FetchFailed \<Rightarrow>
          (d, \<lparr>status = 500,
               body = LicenseError ''Internal server error during license verification''\<rparr>)
      | Fetched ok data \<Rightarrow>
          if ok \<and> g_success data then
            (let (tier, flowers) = productInfo (js_string (b_productId b)) in
             case insert_license now d (pg_text (b_licenseKey b)) (pg_text (b_userId b))
                    (pg_text (b_productId b)) tier flowers (g_purchase data) of
               Inl (e, d0) \<Rightarrow>
                 (d0, \<lparr>status = 500,
                       body = LicenseError ''Internal server error during license verification''\<rparr>)
             | Inr d1 \<Rightarrow>
                 (d1, \<lparr>status = 200,
                       body = LicenseVerified (g_purchase data) tier flowers flowers\<rparr>))
          else
            (d, \<lparr>status = 200,
                 body = VerificationFailed
                          (case g_message data of
                             None \<Rightarrow> ''License verification failed with Gumroad''
                           | Some m \<Rightarrow>
                               if m = [] then ''License verification failed with Gumroad''
                               else m)\<rparr>))"

text \<open>
  One request served alone: the result is the store, the response and the forms that
  were posted to the verifier.
\<close>

definition verify_license ::
  "(int \<Rightarrow> string) \<Rightarrow> string option \<Rightarrow> (verify_form \<Rightarrow> fetch_result) \<Rightarrow> int \<Rightarrow> db \<Rightarrow>
   license_body \<Rightarrow> db \<times> response \<times> verify_form list"
where
  "verify_license toLocaleDateString token gumroad now d b =
     (case license_precheck toLocaleDateString token d b of
        Inl r \<Rightarrow> (d, r, [])
      | Inr form \<Rightarrow>
          (let (d1, r) = license_record now d b (gumroad form) in (d1, r, [form])))"

section \<open>The handlers of the flat-file server\<close>

text \<open>
  The store is one JSON file per user, holding the array of the bodies that were
  posted; \<open>None\<close> is a file that is missing or does not parse, which the handlers read
  as the empty history.
\<close>

type_synonym files = "string \<Rightarrow> history_item list option"

datatype file_body =
    FileError string
  | FilePage "history_item list" "int option" "int option" nat
  | FileSaved nat

record file_response =
  f_status :: nat
  f_body :: file_body

definition read_history :: "files \<Rightarrow> string \<Rightarrow> history_item list" where
  "read_history fs userId = (case fs userId of None \<Rightarrow> [] | Some h \<Rightarrow> h)"

text \<open>
  \<^verbatim>\<open>item.prompt.toLowerCase().includes(searchLower)\<close>: it throws on a prompt that is not
  a string (\<open>None\<close>).
\<close>

definition prompt_includes :: "string \<Rightarrow> history_item \<Rightarrow> bool option" where
  "prompt_includes searchLower item =
     (case hi_prompt item of
        JStr p \<Rightarrow> Some (js_includes (toLowerCase p) searchLower)
      | _ \<Rightarrow> None)"

definition file_get_history :: "files \<Rightarrow> string \<Rightarrow> history_query \<Rightarrow> file_response" where
  "file_get_history fs userId q =
     (let page = (case q_page q of None \<Rightarrow> ''0'' | Some p \<Rightarrow> p);
          limit = (case q_limit q of None \<Rightarrow> ''10'' | Some l \<Rightarrow> l);
          search = (case q_search q of None \<Rightarrow> [] | Some s \<Rightarrow> s);
          history = read_history fs userId
      in if search \<noteq> [] \<and> list_ex (\<lambda>item. prompt_includes (toLowerCase search) item = None) history
         then \<lparr>f_status = 500, f_body = FileError ''Failed to get history''\<rparr>
         else
           (let filteredHistory =
                  (if search \<noteq> []
                   then filter (\<lambda>item. prompt_includes (toLowerCase search) item = Some True) history
                   else history);
                startIndex = js_mul (parseInt page) (parseInt limit);
                endIndex = js_add startIndex (parseInt limit);
                paginatedHistory = js_slice filteredHistory startIndex endIndex
            in \<lparr>f_status = 200,
                f_body = FilePage paginatedHistory
                           (ceil_div (length filteredHistory) (parseInt limit))
                           (parseInt page) (length history)\<rparr>))"

definition file_post_history ::
  "files \<Rightarrow> string \<Rightarrow> history_item \<Rightarrow> files \<times> file_response" where
  "file_post_history fs userId historyItem =
     (let history = take 200 (historyItem # read_history fs userId)
      in (fs(userId := Some history), \<lparr>f_status = 200, f_body = FileSaved (length history)\<rparr>))"

section \<open>Invariant, interleaving and derived notions\<close>

text \<open>
  What the schema guarantees of every state of the store: the primary key and the
  \<^verbatim>\<open>UNIQUE\<close> item ids of \<^verbatim>\<open>user_history\<close>, its sequence ahead of the ids in use, and the
  \<^verbatim>\<open>UNIQUE\<close> keys of \<^verbatim>\<open>license_usage\<close>.
\<close>

definition db_ok :: "db \<Rightarrow> bool" where
  "db_ok d =
     (distinct (map h_id (user_history d)) \<and>
      distinct (map h_item_id (user_history d)) \<and>
      list_all (\<lambda>r. h_id r < user_history_seq d) (user_history d) \<and>
      distinct (map l_license_key (license_usage d)))"

text \<open>Text of ASCII characters, and a number that a double holds exactly.\<close>

definition ascii :: "string \<Rightarrow> bool" where
  "ascii s = list_all (\<lambda>c. (of_char c :: nat) < 128) s"

definition exact :: "int \<Rightarrow> bool" where
  "exact n = (0 \<le> n \<and> n \<le> 9007199254740992)"

text \<open>The rows of one user, \<^verbatim>\<open>SELECT ... WHERE user_id = $1\<close>.\<close>

definition user_rows :: "db \<Rightarrow> string \<Rightarrow> history_row list" where
  "user_rows d userId = filter (\<lambda>r. h_user_id r = userId) (user_history d)"

text \<open>
  Two requests in flight at once: each handler is suspended at its \<^verbatim>\<open>fetch\<close>, so both
  run their first part on the store as it is then, and the second parts run one after
  the other, the first on that store and the second on what the first left.  Each
  request makes its own call of the verifier, \<open>gumroad1\<close> and \<open>gumroad2\<close>, which need not
  answer alike.  \<open>None\<close> when one of the two requests ends in its first part.
\<close>

definition concurrent_redeem ::
  "(int \<Rightarrow> string) \<Rightarrow> string option \<Rightarrow> (verify_form \<Rightarrow> fetch_result) \<Rightarrow>
   (verify_form \<Rightarrow> fetch_result) \<Rightarrow> int \<Rightarrow> int \<Rightarrow> db \<Rightarrow>
   license_body \<Rightarrow> license_body \<Rightarrow> (db \<times> response \<times> db \<times> response) option"
where
  "concurrent_redeem toLocaleDateString token gumroad1 gumroad2 now1 now2 d first second =
     (case (license_precheck toLocaleDateString token d first,
            license_precheck toLocaleDateString token d second) of
        (Inr form1, Inr form2) \<Rightarrow>
          (let (d1, r1) = license_record now1 d first (gumroad1 form1);
               (d2, r2) = license_record now2 d1 second (gumroad2 form2)
           in Some (d1, r1, d2, r2))
      | _ \<Rightarrow> None)"



text \<open>The page \<open>p\<close> of a list cut into pages of \<open>n\<close>.\<close>

definition page_window :: "int \<Rightarrow> int \<Rightarrow> 'a list \<Rightarrow> 'a list" where
  "page_window p n xs = take (nat n) (drop (nat (p * n)) xs)"

section \<open>Sample data\<close>

text \<open>
  The stores and requests of the concrete instances below: first a store with one
  history record.
\<close>

definition sample_row :: history_row where
  "sample_row =
     \<lparr>h_id = 1, h_user_id = ''u1'', h_item_id = ''item-1'', h_prompt = ''a red cat'',
      h_image_url = None, h_original_image_url = None, h_frame_id = Some ''frame-A'',
      h_frame_name = None, h_timestamp = 1000, h_quality = None, h_width = None,
      h_height = None, h_created_at = 1000\<rparr>"

definition sample_db :: db where
  "sample_db = empty_db\<lparr>user_history := [sample_row], user_history_seq := 2\<rparr>"

text \<open>
  A formatting of dates, a verifier that confirms every key, and a store with one
  redeemed key.
\<close>

definition sample_date :: "int \<Rightarrow> string" where
  "sample_date t = show_int t"

definition authentic :: "verify_form \<Rightarrow> fetch_result" where
  "authentic form = Fetched True \<lparr>g_success = True, g_message = None, g_purchase = Some ''{}''\<rparr>"

definition sample_license :: license_row where
  "sample_license =
     \<lparr>l_id = 1, l_license_key = ''KEY-1'', l_user_id = ''u1'',
      l_product_id = ''2FqGqjM16Jjs0NDRtncN4g=='', l_product_tier = ''starter'',
      l_flowers_granted = 50, l_activated_at = 2000, l_gumroad_data = Some ''{}'',
      l_status = ''active''\<rparr>"

definition licensed_db :: db where
  "licensed_db = empty_db\<lparr>license_usage := [sample_license], license_usage_seq := 2\<rparr>"

definition redeem_body :: "string \<Rightarrow> string \<Rightarrow> string \<Rightarrow> license_body" where
  "redeem_body product key user =
     \<lparr>b_productId = JStr product, b_licenseKey = JStr key, b_userId = JStr user\<rparr>"

text \<open>A user id of 256 characters.\<close>

definition long_user_id :: string where
  "long_user_id = replicate 256 CHR ''a''"

definition sample_item :: "string \<Rightarrow> string \<Rightarrow> int \<Rightarrow> history_item" where
  "sample_item i p t =
     \<lparr>hi_id = JStr i, hi_prompt = JStr p, hi_imageUrl = JUndefined,
      hi_originalImageUrl = JUndefined, hi_frameId = JUndefined, hi_frameName = JUndefined,
      hi_quality = JUndefined, hi_width = None, hi_height = None, hi_timestamp = DateAt t\<rparr>"

text \<open>A store in which the user \<^verbatim>\<open>u1\<close> has 50 records, the record \<open>n\<close> made at time \<open>1000 n\<close>.\<close>

definition numbered_row :: "nat \<Rightarrow> history_row" where
  "numbered_row n =
     sample_row\<lparr>h_id := n, h_item_id := ''item-'' @ replicate n CHR ''i'', h_timestamp := 1000 * int n\<rparr>"

definition full_db :: db where
  "full_db = empty_db\<lparr>user_history := map numbered_row [1..<51], user_history_seq := 51\<rparr>"

definition new_item :: history_item where
  "new_item = sample_item ''new'' ''a green bird'' 60000"

definition new_row :: history_row where
  "new_row =
     \<lparr>h_id = 51, h_user_id = ''u1'', h_item_id = ''new'', h_prompt = ''a green bird'',
      h_image_url = None, h_original_image_url = None, h_frame_id = None,
      h_frame_name = None, h_timestamp = 60000, h_quality = None, h_width = None,
      h_height = None, h_created_at = 60000\<rparr>"

text \<open>Flat-file stores: no file at all, a history of 50 records, a history of two.\<close>

definition no_files :: files where
  "no_files = (\<lambda>userId. None)"

definition numbered_item :: "nat \<Rightarrow> history_item" where
  "numbered_item n = sample_item (''item-'' @ replicate n CHR ''i'') ''a red cat'' (1000 * int n)"

definition fifty_files :: files where
  "fifty_files = no_files(''u1'' := Some (map numbered_item [1..<51]))"

definition two_files :: files where
  "two_files =
     no_files(''u1'' := Some [sample_item ''item-2'' ''a blue dog'' 2000,
                              sample_item ''item-1'' ''a red cat'' 1000])"

section \<open>Steps that may fail\<close>

lemma bind_err_Inr: "bind_err m f = Inr y \<longleftrightarrow> (\<exists>x. m = Inr x \<and> f x = Inr y)"
  by (cases m) (simp_all add: bind_err_def)

lemma not_null_Inr: "not_null column v = Inr x \<longleftrightarrow> v = Some x"
  by (cases v) (auto simp: not_null_def)

lemma varchar_null_Some: "varchar_null n (Some s) = Inr w \<longleftrightarrow> (\<exists>s'. varchar n s = Inr s' \<and> w = Some s')"
  by (cases "varchar n s") (auto simp: varchar_null_def)

lemma varchar_null_None [simp]: "varchar_null n None = Inr None"
  by (simp add: varchar_null_def)

lemma varchar_fits: "length s \<le> n \<Longrightarrow> varchar n s = Inr s"
  by (simp add: varchar_def)

lemma varchar_null_fits: "length s \<le> n \<Longrightarrow> varchar_null n (Some s) = Inr (Some s)"
  by (simp add: varchar_null_def varchar_fits)

section \<open>Properties of the update-frame handler\<close>

lemma show_nat_nonempty: "show_nat n \<noteq> []"
  by (subst show_nat.simps) simp

lemma truthy_pg_text: "truthy v \<Longrightarrow> \<exists>s. pg_text v = Some s \<and> s \<noteq> []"
  by (cases v) (auto simp: show_int_def show_nat_nonempty)

lemma varchar_nonempty: "s \<noteq> [] \<Longrightarrow> varchar 255 s \<noteq> Inr []"
  by (auto simp: varchar_def split: if_splits)

lemma update_frame_id_rows:
  assumes "update_frame_id d (Some s) u i = Inr (d1, n)" and "s \<noteq> []"
  shows "length (user_history d1) = length (user_history d)"
    and "k < length (user_history d) \<Longrightarrow>
         h_frame_id (user_history d1 ! k) = h_frame_id (user_history d ! k) \<or>
         (\<exists>s'. h_frame_id (user_history d1 ! k) = Some s' \<and> s' \<noteq> [])"
  using assms
  by (auto simp: update_frame_id_def bind_err_def varchar_null_def Let_def
           split: sum.splits simp: varchar_nonempty)

text \<open>
  C10.  A request to update-frame whose \<^verbatim>\<open>frameId\<close> is falsy (absent, the empty string,
  0 or \<^verbatim>\<open>null\<close>) is answered with status 400 and leaves the store as it was, whatever
  the store holds.  No request to this handler removes a record, and the \<^verbatim>\<open>frame_id\<close> of
  each record afterwards is the one it had or a string that is not empty.
\<close>

theorem update_frame_falsy_frameId:
  "(\<not> truthy (f_frameId b) \<longrightarrow>
      update_frame d userId b =
        (d, \<lparr>status = 400, body = Error ''itemId and frameId are required''\<rparr>)) \<and>
   length (user_history (fst (update_frame d userId b))) = length (user_history d) \<and>
   (\<forall>k < length (user_history d).
      h_frame_id (user_history (fst (update_frame d userId b)) ! k) = h_frame_id (user_history d ! k) \<or>
      (\<exists>s. h_frame_id (user_history (fst (update_frame d userId b)) ! k) = Some s \<and> s \<noteq> []))"
proof (cases "truthy (f_itemId b) \<and> truthy (f_frameId b)")
  case False
  then show ?thesis by (auto simp: update_frame_def)
next
  case True
  then obtain s where s: "pg_text (f_frameId b) = Some s" "s \<noteq> []"
    using truthy_pg_text by blast
  show ?thesis
  proof (cases "update_frame_id d (Some s) (Some userId) (pg_text (f_itemId b))")
    case (Inl e)
    with True s show ?thesis by (simp add: update_frame_def keep_client_def)
  next
    case (Inr p)
    obtain d1 n where p: "p = (d1, n)" by (cases p)
    have fst: "fst (update_frame d userId b) = d1"
      using True s Inr p by (simp add: update_frame_def)
    show ?thesis
      using True update_frame_id_rows[OF Inr[unfolded p] s(2)] by (simp add: fst)
  qed
qed


theorem update_frame_falsy_frameId_witness:
  "list_all (\<lambda>v. \<not> truthy v \<and>
      update_frame sample_db ''u1'' \<lparr>f_itemId = JStr ''item-1'', f_frameId = v\<rparr> =
        (sample_db, \<lparr>status = 400, body = Error ''itemId and frameId are required''\<rparr>))
     [JUndefined, JStr [], JNum 0, JNull] \<and>
   0 < length (user_history sample_db) \<and>
   h_frame_id (user_history (fst (update_frame sample_db ''u1''
       \<lparr>f_itemId = JStr ''item-1'', f_frameId = JStr ''frame-B''\<rparr>)) ! 0) = Some ''frame-B''"
  using update_frame_falsy_frameId [of "\<lparr>f_itemId = JStr ''item-1'', f_frameId = JUndefined\<rparr>" sample_db "''u1''"]
    update_frame_falsy_frameId [of "\<lparr>f_itemId = JStr ''item-1'', f_frameId = JStr []\<rparr>" sample_db "''u1''"]
    update_frame_falsy_frameId [of "\<lparr>f_itemId = JStr ''item-1'', f_frameId = JNum 0\<rparr>" sample_db "''u1''"]
    update_frame_falsy_frameId [of "\<lparr>f_itemId = JStr ''item-1'', f_frameId = JNull\<rparr>" sample_db "''u1''"]
    update_frame_falsy_frameId [of "\<lparr>f_itemId = JStr ''item-1'', f_frameId = JStr ''frame-B''\<rparr>" sample_db "''u1''"]
  by (simp add: sample_db_def sample_row_def empty_db_def update_frame_def update_frame_id_def
        bind_err_def varchar_null_def varchar_def)

section \<open>Properties of license redemption\<close>

lemma filter_distinct_key:
  "distinct (map f xs) \<Longrightarrow> x \<in> set xs \<Longrightarrow> filter (\<lambda>r. f r = f x) xs = [x]"
proof (induction xs)
  case Nil
  then show ?case by simp
next
  case (Cons y ys)
  show ?case
  proof (cases "y = x")
    case True
    have "filter (\<lambda>r. f r = f x) ys = []"
      using Cons.prems True by (auto simp: filter_empty_conv image_iff)
    with True show ?thesis by simp
  next
    case False
    with Cons show ?thesis by auto
  qed
qed

lemma select_license_unique:
  assumes "distinct (map l_license_key (license_usage d))"
    and "usage \<in> set (license_usage d)"
    and "pg_text key = Some (l_license_key usage)"
  shows "select_license d (pg_text key) = [usage]"
proof -
  have "select_license d (pg_text key) =
        filter (\<lambda>r. l_license_key r = l_license_key usage) (license_usage d)"
    using assms(3) by (simp add: select_license_def)
  then show ?thesis
    using filter_distinct_key [OF assms(1) assms(2)] by simp
qed

text \<open>
  C4.  When a record for the license key of a redeem request is in the store, the
  request (with its three fields present) is answered with the "already used" failure:
  status 200, \<^verbatim>\<open>success: false\<close>, \<^verbatim>\<open>alreadyUsed: true\<close> and a message that names the date
  of the record's \<^verbatim>\<open>activated_at\<close> and its \<^verbatim>\<open>user_id\<close>.  The store is unchanged and nothing
  is posted to the verifier, whatever the verifier and the access token are.
\<close>

theorem verify_license_already_used:
  assumes "db_ok d"
    and "truthy (b_productId b)" and "truthy (b_licenseKey b)" and "truthy (b_userId b)"
    and "usage \<in> set (license_usage d)"
    and "pg_text (b_licenseKey b) = Some (l_license_key usage)"
  shows "verify_license toLocaleDateString token gumroad now d b =
           (d, \<lparr>status = 200,
                body = AlreadyUsed
                  (''This license key has already been activated on ''
                   @ toLocaleDateString (l_activated_at usage) @ '' by user ''
                   @ l_user_id usage @ ''. Each license can only be used once.'')\<rparr>, [])"
proof -
  have "select_license d (pg_text (b_licenseKey b)) = [usage]"
    using assms(1,5,6) by (intro select_license_unique) (simp_all add: db_ok_def)
  then show ?thesis
    using assms(2-4) by (simp add: verify_license_def license_precheck_def)
qed


theorem verify_license_already_used_witness:
  "db_ok licensed_db \<and> sample_license \<in> set (license_usage licensed_db) \<and>
   verify_license sample_date None authentic 3000 licensed_db
       (redeem_body ''2FqGqjM16Jjs0NDRtncN4g=='' ''KEY-1'' ''u2'') =
     (licensed_db,
      \<lparr>status = 200,
       body = AlreadyUsed ''This license key has already been activated on 2000 by user u1. Each license can only be used once.''\<rparr>,
      [])"
proof -
  have ok: "db_ok licensed_db"
    by (simp add: db_ok_def licensed_db_def empty_db_def)
  show ?thesis
    using ok verify_license_already_used [OF ok, of "redeem_body ''2FqGqjM16Jjs0NDRtncN4g=='' ''KEY-1'' ''u2''"
      sample_license sample_date None authentic 3000]
    by (simp add: licensed_db_def redeem_body_def sample_license_def sample_date_def
          show_int_def show_nat.simps)
qed

lemma truthy_js_string: "truthy v \<Longrightarrow> pg_text v = Some (js_string v)"
  by (cases v) simp_all

text \<open>
  C9, amended.  A redeem request for a key that has no record, which the verifier
  confirms, and whose product id is neither in the product table nor the name of a
  property that the table object inherits, succeeds with tier \<^verbatim>\<open>unknown\<close> and 0 flowers
  and adds the record, provided the product id, the key and the user id each fit the
  255 characters of their columns.
\<close>

theorem verify_license_unknown_product:
  assumes "truthy (b_productId b)" and "truthy (b_licenseKey b)" and "truthy (b_userId b)"
    and "length (js_string (b_productId b)) \<le> 255"
    and "length (js_string (b_licenseKey b)) \<le> 255"
    and "length (js_string (b_userId b)) \<le> 255"
    and "list_all (\<lambda>r. l_license_key r \<noteq> js_string (b_licenseKey b)) (license_usage d)"
    and "token = Some t" and "t \<noteq> []"
    and "form = \<lparr>access_token = t, product_id = js_string (b_productId b),
                  license_key = js_string (b_licenseKey b), increment_uses_count = ''false''\<rparr>"
    and "gumroad form = Fetched True data" and "g_success data"
    and "map_of productTierMap (js_string (b_productId b)) = None"
    and "js_string (b_productId b) \<notin> set inherited_keys"
  shows "verify_license toLocaleDateString token gumroad now d b =
           (d\<lparr>license_usage := license_usage d @
                 [\<lparr>l_id = license_usage_seq d, l_license_key = js_string (b_licenseKey b),
                   l_user_id = js_string (b_userId b), l_product_id = js_string (b_productId b),
                   l_product_tier = ''unknown'', l_flowers_granted = 0, l_activated_at = now,
                   l_gumroad_data = g_purchase data, l_status = ''active''\<rparr>],
               license_usage_seq := Suc (license_usage_seq d)\<rparr>,
            \<lparr>status = 200, body = LicenseVerified (g_purchase data) (Some ''unknown'') (Some 0) (Some 0)\<rparr>,
            [form])"
proof -
  have sel: "select_license d (pg_text (b_licenseKey b)) = []"
    using assms(2,7)
    by (auto simp: select_license_def truthy_js_string filter_empty_conv list_all_iff)
  have pre: "license_precheck toLocaleDateString token d b = Inr form"
    using assms(1-3,8-10) sel by (simp add: license_precheck_def)
  have info: "productInfo (js_string (b_productId b)) = (Some ''unknown'', Some 0)"
    using assms(13,14) by (simp add: productInfo_def)
  have fresh: "\<not> list_ex (\<lambda>r. l_license_key r = js_string (b_licenseKey b)) (license_usage d)"
    using assms(7) by (auto simp: list_ex_iff list_all_iff)
  have ins: "insert_license now d (pg_text (b_licenseKey b)) (pg_text (b_userId b))
               (pg_text (b_productId b)) (Some ''unknown'') (Some 0) (g_purchase data) =
             Inr (d\<lparr>license_usage := license_usage d @
                 [\<lparr>l_id = license_usage_seq d, l_license_key = js_string (b_licenseKey b),
                   l_user_id = js_string (b_userId b), l_product_id = js_string (b_productId b),
                   l_product_tier = ''unknown'', l_flowers_granted = 0, l_activated_at = now,
                   l_gumroad_data = g_purchase data, l_status = ''active''\<rparr>],
               license_usage_seq := Suc (license_usage_seq d)\<rparr>)"
    using assms(1-6) fresh
    by (simp add: insert_license_def proposed_license_def bind_err_def not_null_def
          truthy_js_string varchar_null_fits varchar_null_def varchar_fits integer_null_def)
  show ?thesis
    using pre info ins assms(11,12)
    by (simp add: verify_license_def license_record_def)
qed


theorem verify_license_unknown_product_witness:
  "verify_license sample_date (Some ''token'') authentic 3000 licensed_db
       (redeem_body ''new-product'' ''KEY-2'' ''u2'') =
     (licensed_db\<lparr>license_usage := [sample_license,
          \<lparr>l_id = 2, l_license_key = ''KEY-2'', l_user_id = ''u2'', l_product_id = ''new-product'',
           l_product_tier = ''unknown'', l_flowers_granted = 0, l_activated_at = 3000,
           l_gumroad_data = Some ''{}'', l_status = ''active''\<rparr>],
        license_usage_seq := 3\<rparr>,
      \<lparr>status = 200, body = LicenseVerified (Some ''{}'') (Some ''unknown'') (Some 0) (Some 0)\<rparr>,
      [\<lparr>access_token = ''token'', product_id = ''new-product'', license_key = ''KEY-2'',
        increment_uses_count = ''false''\<rparr>])"
  using verify_license_unknown_product [of "redeem_body ''new-product'' ''KEY-2'' ''u2''" licensed_db
      "Some ''token''" "''token''" _ authentic _ sample_date 3000, OF _ _ _ _ _ _ _ refl _ refl]
  by (simp add: redeem_body_def licensed_db_def empty_db_def sample_license_def authentic_def
        productTierMap_def inherited_keys_def)

text \<open>
  C9 as stated fails: with a user id of 256 characters the \<^verbatim>\<open>INSERT\<close> is refused, and
  the confirmed, unused key of an unknown product is answered with status 500 and no
  record.
\<close>

theorem unknown_product_long_user_counterexample:
  "verify_license sample_date (Some ''token'') authentic 3000 empty_db
       (redeem_body ''new-product'' ''KEY-2'' long_user_id) =
     (empty_db,
      \<lparr>status = 500, body = LicenseError ''Internal server error during license verification''\<rparr>,
      [\<lparr>access_token = ''token'', product_id = ''new-product'', license_key = ''KEY-2'',
        increment_uses_count = ''false''\<rparr>])"
  by (simp add: verify_license_def license_precheck_def license_record_def select_license_def
        redeem_body_def empty_db_def authentic_def productInfo_def productTierMap_def
        inherited_keys_def insert_license_def proposed_license_def bind_err_def not_null_def
        varchar_null_def varchar_def long_user_id_def)

lemma proposed_license_key:
  assumes "proposed_license now n key user product tier flowers data = Inr row"
  shows "\<exists>k0. key = Some k0 \<and> varchar 255 k0 = Inr (l_license_key row)"
proof (cases key)
  case None
  with assms show ?thesis
    by (auto simp: proposed_license_def bind_err_Inr not_null_Inr)
next
  case (Some k0)
  with assms show ?thesis
    by (auto simp: proposed_license_def bind_err_Inr not_null_Inr varchar_null_Some)
qed

lemma insert_license_Inr:
  assumes "insert_license now d key u p t f data = Inr d1"
  shows "\<exists>k0 k row. key = Some k0 \<and> varchar 255 k0 = Inr k \<and>
           license_usage d1 = license_usage d @ [row] \<and> l_license_key row = k"
proof -
  from assms obtain row where
    row: "proposed_license now (license_usage_seq d) key u p t f data = Inr row" and
    d1: "license_usage d1 = license_usage d @ [row]"
    by (auto simp: insert_license_def split: sum.splits if_splits)
  from proposed_license_key [OF row] d1 show ?thesis by blast
qed

lemma insert_license_Inl:
  assumes "insert_license now d key u p t f data = Inl (e, d0)"
  shows "license_usage d0 = license_usage d \<and> user_history d0 = user_history d \<and>
         user_history_seq d0 = user_history_seq d \<and> clients_out d0 = clients_out d"
  using assms by (auto simp: insert_license_def split: sum.splits if_splits)

lemma insert_license_conflict:
  assumes "key = Some k0" and "varchar 255 k0 = Inr k"
    and "list_ex (\<lambda>r. l_license_key r = k) (license_usage d)"
  shows "insert_license now d key u p t f data \<noteq> Inr d1"
proof
  assume "insert_license now d key u p t f data = Inr d1"
  then obtain row where
    row: "proposed_license now (license_usage_seq d) key u p t f data = Inr row" and
    fresh: "\<not> list_ex (\<lambda>r. l_license_key r = l_license_key row) (license_usage d)"
    by (auto simp: insert_license_def split: sum.splits if_splits)
  from proposed_license_key [OF row] assms(1,2) have "l_license_key row = k"
    by auto
  with fresh assms(3) show False by simp
qed

lemma license_record_verified:
  assumes "license_record now d b res = (d1, r)" and "body r = LicenseVerified p t f g"
  shows "\<exists>data tier flowers. res = Fetched True data \<and> g_success data \<and>
           insert_license now d (pg_text (b_licenseKey b)) (pg_text (b_userId b))
             (pg_text (b_productId b)) tier flowers (g_purchase data) = Inr d1"
  using assms
  by (auto simp: license_record_def Let_def
           split: fetch_result.splits if_splits prod.splits sum.splits)

lemma license_record_conflict:
  assumes "\<And>tier flowers data d1.
             insert_license now d (pg_text (b_licenseKey b)) (pg_text (b_userId b))
               (pg_text (b_productId b)) tier flowers data \<noteq> Inr d1"
  shows "license_usage (fst (license_record now d b res)) = license_usage d"
    and "\<forall>m. body (snd (license_record now d b res)) \<noteq> AlreadyUsed m"
    and "res = Fetched True data \<Longrightarrow> g_success data \<Longrightarrow>
         snd (license_record now d b res) =
           \<lparr>status = 500,
            body = LicenseError ''Internal server error during license verification''\<rparr>"
proof -
  obtain tier flowers where info: "productInfo (js_string (b_productId b)) = (tier, flowers)"
    by (cases "productInfo (js_string (b_productId b))")
  note ins = assms [of tier flowers]
  show "license_usage (fst (license_record now d b res)) = license_usage d"
    using ins info
    by (cases res) (auto simp: license_record_def split: sum.splits dest: insert_license_Inl)
  show "\<forall>m. body (snd (license_record now d b res)) \<noteq> AlreadyUsed m"
    using ins info by (cases res) (auto simp: license_record_def split: sum.splits)
  show "res = Fetched True data \<Longrightarrow> g_success data \<Longrightarrow>
         snd (license_record now d b res) =
           \<lparr>status = 500,
            body = LicenseError ''Internal server error during license verification''\<rparr>"
    using ins info by (auto simp: license_record_def split: sum.splits)
qed

text \<open>
  C1, amended.  When two redeem requests for the same key both pass the lookup of
  step 1 and the first one's insert succeeds, exactly one record is added and the second
  request adds none.  The second request is never answered with the "already used"
  result: when the verifier confirms it as well, its insert is refused by the
  \<^verbatim>\<open>UNIQUE\<close> constraint and the answer is status 500 with the error "Internal server
  error during license verification".
\<close>

theorem concurrent_redeem_loser:
  assumes "concurrent_redeem toLocaleDateString token gumroad1 gumroad2 now1 now2 d first second =
             Some (d1, r1, d2, r2)"
    and "pg_text (b_licenseKey second) = pg_text (b_licenseKey first)"
    and "body r1 = LicenseVerified p t f g"
    and "license_precheck toLocaleDateString token d second = Inr form2"
  shows "length (license_usage d1) = Suc (length (license_usage d)) \<and>
         license_usage d2 = license_usage d1 \<and>
         (\<forall>m. body r2 \<noteq> AlreadyUsed m) \<and>
         (\<forall>data. gumroad2 form2 = Fetched True data \<and> g_success data \<longrightarrow>
            r2 = \<lparr>status = 500,
                  body = LicenseError ''Internal server error during license verification''\<rparr>)"
proof -
  from assms(1,4) obtain form1 where
    rec1: "license_record now1 d first (gumroad1 form1) = (d1, r1)" and
    rec2: "license_record now2 d1 second (gumroad2 form2) = (d2, r2)"
    by (auto simp: concurrent_redeem_def split: sum.splits prod.splits)
  from license_record_verified [OF rec1 assms(3)] obtain data :: gumroad_data and tier flowers where
    ins1: "insert_license now1 d (pg_text (b_licenseKey first)) (pg_text (b_userId first))
             (pg_text (b_productId first)) tier flowers (g_purchase data) = Inr d1"
    by auto
  from insert_license_Inr [OF ins1] obtain k0 k row where
    key: "pg_text (b_licenseKey first) = Some k0" "varchar 255 k0 = Inr k" and
    rows: "license_usage d1 = license_usage d @ [row]" "l_license_key row = k"
    by blast
  have held: "list_ex (\<lambda>r. l_license_key r = k) (license_usage d1)"
    using rows by (simp add: list_ex_iff)
  have conflict: "insert_license now2 d1 (pg_text (b_licenseKey second))
                    (pg_text (b_userId second)) (pg_text (b_productId second)) tier' flowers' data' \<noteq>
                  Inr d'" for tier' flowers' data' d'
    using insert_license_conflict [OF _ key(2) held] key(1) assms(2) by simp
  note loser = license_record_conflict [of now2 d1 second, OF conflict]
  have "license_usage d2 = license_usage d1"
    using loser(1) [of "gumroad2 form2"] rec2 by simp
  moreover have "\<forall>m. body r2 \<noteq> AlreadyUsed m"
    using loser(2) [of "gumroad2 form2"] rec2 by simp
  moreover have "r2 = \<lparr>status = 500,
                  body = LicenseError ''Internal server error during license verification''\<rparr>"
    if "gumroad2 form2 = Fetched True data2" and "g_success data2" for data2
    using loser(3) [OF that] rec2 by simp
  ultimately show ?thesis
    using rows(1) by simp
qed

theorem concurrent_redeem_loser_witness:
  "concurrent_redeem sample_date (Some ''token'') authentic authentic 3000 3001 licensed_db
       (redeem_body ''new-product'' ''KEY-2'' ''u2'') (redeem_body ''other-product'' ''KEY-2'' ''u3'') =
     Some (licensed_db\<lparr>license_usage := [sample_license,
               \<lparr>l_id = 2, l_license_key = ''KEY-2'', l_user_id = ''u2'',
                l_product_id = ''new-product'', l_product_tier = ''unknown'',
                l_flowers_granted = 0, l_activated_at = 3000, l_gumroad_data = Some ''{}'',
                l_status = ''active''\<rparr>],
             license_usage_seq := 3\<rparr>,
           \<lparr>status = 200, body = LicenseVerified (Some ''{}'') (Some ''unknown'') (Some 0) (Some 0)\<rparr>,
           licensed_db\<lparr>license_usage := [sample_license,
               \<lparr>l_id = 2, l_license_key = ''KEY-2'', l_user_id = ''u2'',
                l_product_id = ''new-product'', l_product_tier = ''unknown'',
                l_flowers_granted = 0, l_activated_at = 3000, l_gumroad_data = Some ''{}'',
                l_status = ''active''\<rparr>],
             license_usage_seq := 4\<rparr>,
           \<lparr>status = 500,
            body = LicenseError ''Internal server error during license verification''\<rparr>)"
proof -
  let ?first = "redeem_body ''new-product'' ''KEY-2'' ''u2''"
  let ?second = "redeem_body ''other-product'' ''KEY-2'' ''u3''"
  let ?form2 = "\<lparr>access_token = ''token'', product_id = ''other-product'',
                  license_key = ''KEY-2'', increment_uses_count = ''false''\<rparr>"
  let ?d1 = "licensed_db\<lparr>license_usage := [sample_license,
               \<lparr>l_id = 2, l_license_key = ''KEY-2'', l_user_id = ''u2'',
                l_product_id = ''new-product'', l_product_tier = ''unknown'',
                l_flowers_granted = 0, l_activated_at = 3000, l_gumroad_data = Some ''{}'',
                l_status = ''active''\<rparr>],
             license_usage_seq := 3\<rparr>"
  have pre2: "license_precheck sample_date (Some ''token'') licensed_db ?second = Inr ?form2"
    by (simp add: license_precheck_def select_license_def redeem_body_def licensed_db_def
          sample_license_def)
  have pre1: "license_precheck sample_date (Some ''token'') licensed_db ?first =
              Inr \<lparr>access_token = ''token'', product_id = ''new-product'',
                   license_key = ''KEY-2'', increment_uses_count = ''false''\<rparr>"
    by (simp add: license_precheck_def select_license_def redeem_body_def licensed_db_def
          sample_license_def)
  have rec1: "license_record 3000 licensed_db ?first
                (authentic \<lparr>access_token = ''token'', product_id = ''new-product'',
                   license_key = ''KEY-2'', increment_uses_count = ''false''\<rparr>) =
              (?d1, \<lparr>status = 200,
                     body = LicenseVerified (Some ''{}'') (Some ''unknown'') (Some 0) (Some 0)\<rparr>)"
    by (simp add: license_record_def redeem_body_def licensed_db_def empty_db_def
          sample_license_def authentic_def productInfo_def productTierMap_def
          inherited_keys_def insert_license_def proposed_license_def bind_err_def
          not_null_def varchar_null_def varchar_def integer_null_def)
  obtain d2 r2 where rec2: "license_record 3001 ?d1 ?second (authentic ?form2) = (d2, r2)"
    by (cases "license_record 3001 ?d1 ?second (authentic ?form2)")
  have run: "concurrent_redeem sample_date (Some ''token'') authentic authentic 3000 3001
               licensed_db ?first ?second =
             Some (?d1, \<lparr>status = 200,
                          body = LicenseVerified (Some ''{}'') (Some ''unknown'') (Some 0) (Some 0)\<rparr>,
                   d2, r2)"
    by (simp add: concurrent_redeem_def pre1 pre2 rec1 rec2)
  have same: "pg_text (b_licenseKey ?second) = pg_text (b_licenseKey ?first)"
    by (simp add: redeem_body_def)
  from concurrent_redeem_loser [OF run same _ pre2]
  have rows: "license_usage d2 = license_usage ?d1"
    and answer: "r2 = \<lparr>status = 500,
           body = LicenseError ''Internal server error during license verification''\<rparr>"
    by (simp_all add: authentic_def)
  have "d2 = ?d1\<lparr>license_usage_seq := 4\<rparr>"
    using rec2
    by (simp add: license_record_def redeem_body_def licensed_db_def empty_db_def
          sample_license_def authentic_def productInfo_def productTierMap_def
          inherited_keys_def insert_license_def proposed_license_def bind_err_def
          not_null_def varchar_null_def varchar_def integer_null_def)
  with run answer show ?thesis by simp
qed

text \<open>
  C1 as stated fails: of two racing requests for the key \<^verbatim>\<open>KEY-1\<close>, the second is not
  answered with the "already used" result that names the winner, but with status 500.
\<close>

theorem concurrent_redeem_counterexample:
  "concurrent_redeem sample_date (Some ''token'') authentic authentic 2000 2001 empty_db
       (redeem_body ''2FqGqjM16Jjs0NDRtncN4g=='' ''KEY-1'' ''u1'')
       (redeem_body ''2FqGqjM16Jjs0NDRtncN4g=='' ''KEY-1'' ''u2'') =
     Some (licensed_db,
           \<lparr>status = 200, body = LicenseVerified (Some ''{}'') (Some ''starter'') (Some 50) (Some 50)\<rparr>,
           licensed_db\<lparr>license_usage_seq := 3\<rparr>,
           \<lparr>status = 500,
            body = LicenseError ''Internal server error during license verification''\<rparr>)"
  by (simp add: concurrent_redeem_def license_precheck_def license_record_def
        select_license_def redeem_body_def licensed_db_def empty_db_def sample_license_def
        authentic_def productInfo_def productTierMap_def
        insert_license_def proposed_license_def bind_err_def not_null_def varchar_null_def
        varchar_def integer_null_def)

section \<open>Requests with missing fields\<close>


lemma upsert_history_Inl:
  assumes "upsert_history now d v = Inl (e, d0)"
  shows "user_history d0 = user_history d \<and> license_usage d0 = license_usage d \<and>
         license_usage_seq d0 = license_usage_seq d \<and> clients_out d0 = clients_out d \<and>
         (user_history_seq d0 = user_history_seq d \<or>
          user_history_seq d0 = Suc (user_history_seq d))"
  using assms by (auto simp: upsert_history_def split: sum.splits if_splits)





section \<open>Properties of the history log\<close>

lemma conflict_update_keys [simp]:
  "h_id (conflict_update x r) = h_id r"
  "h_item_id (conflict_update x r) = h_item_id r"
  "h_user_id (conflict_update x r) = h_user_id r"
  by (simp_all add: conflict_update_def)

lemma proposed_row_id: "proposed_row now n v = Inr new \<Longrightarrow> h_id new = n"
  by (auto simp: proposed_row_def bind_err_Inr split: option.splits)

lemma proposed_row_keys:
  assumes "proposed_row now n v = Inr new"
  shows "varchar_null 255 (v_user_id v) = Inr (Some (h_user_id new))"
    and "varchar_null 255 (v_item_id v) = Inr (Some (h_item_id new))"
    and "v_prompt v = Some (h_prompt new)"
    and "v_timestamp v = Some (h_timestamp new)"
    and "h_image_url new = v_image_url v"
    and "h_original_image_url new = v_original_image_url v"
  using assms
  by (auto simp: proposed_row_def bind_err_Inr not_null_Inr split: option.splits)

lemma upsert_history_rows:
  assumes "upsert_history now d v = Inr d1"
  shows "\<exists>new. proposed_row now (user_history_seq d) v = Inr new \<and>
           user_history d1 =
             (if list_ex (\<lambda>r. h_item_id r = h_item_id new) (user_history d)
              then map (conflict_update new) (user_history d)
              else user_history d @ [new]) \<and>
           user_history_seq d1 = Suc (user_history_seq d) \<and>
           license_usage d1 = license_usage d"
proof (cases "proposed_row now (user_history_seq d) v")
  case (Inl e)
  with assms show ?thesis
    by (simp add: upsert_history_def)
next
  case (Inr new)
  show ?thesis
  proof (cases "list_ex (\<lambda>r. h_item_id r = h_item_id new) (user_history d)")
    case True
    with assms Inr have "d1 = d\<lparr>user_history := map (conflict_update new) (user_history d),
                                 user_history_seq := Suc (user_history_seq d)\<rparr>"
      by (simp add: upsert_history_def)
    with Inr True show ?thesis by simp
  next
    case False
    with assms Inr have "d1 = d\<lparr>user_history := user_history d @ [new],
                                 user_history_seq := Suc (user_history_seq d)\<rparr>"
      by (simp add: upsert_history_def)
    with Inr False show ?thesis by simp
  qed
qed

lemma upsert_history_ok:
  assumes "db_ok d" and "upsert_history now d v = Inr d1"
  shows "db_ok d1"
proof -
  from upsert_history_rows [OF assms(2)] obtain new where
    new: "proposed_row now (user_history_seq d) v = Inr new" and
    rows: "user_history d1 =
             (if list_ex (\<lambda>r. h_item_id r = h_item_id new) (user_history d)
              then map (conflict_update new) (user_history d)
              else user_history d @ [new])" and
    rest: "user_history_seq d1 = Suc (user_history_seq d)" "license_usage d1 = license_usage d"
    by blast
  have id: "h_id new = user_history_seq d"
    using new by (rule proposed_row_id)
  show ?thesis
  proof (cases "list_ex (\<lambda>r. h_item_id r = h_item_id new) (user_history d)")
    case True
    have keys: "map h_id (user_history d1) = map h_id (user_history d)"
         "map h_item_id (user_history d1) = map h_item_id (user_history d)"
      using rows True by (simp_all add: comp_def)
    have "list_all (\<lambda>r. h_id r < Suc (user_history_seq d)) (user_history d1)"
      using rows True assms(1) by (auto simp: db_ok_def list_all_iff less_Suc_eq)
    then show ?thesis
      using assms(1) rest keys by (simp add: db_ok_def)
  next
    case False
    then show ?thesis
      using assms(1) rest rows id
      by (auto simp: db_ok_def list_all_iff list_ex_iff less_Suc_eq)
  qed
qed


lemma by_timestamp_desc_set [simp]: "set (by_timestamp_desc rows) = set rows"
  by (simp add: by_timestamp_desc_def)

lemma by_timestamp_desc_length [simp]: "length (by_timestamp_desc rows) = length rows"
  by (simp add: by_timestamp_desc_def)

lemma by_timestamp_desc_distinct [simp]: "distinct (by_timestamp_desc rows) = distinct rows"
  by (simp add: by_timestamp_desc_def)

lemma by_timestamp_desc_newer:
  assumes "r \<in> set (take n (by_timestamp_desc rows))"
    and "e \<in> set (drop n (by_timestamp_desc rows))"
  shows "h_timestamp e \<le> h_timestamp r"
proof -
  let ?S = "by_timestamp_desc rows"
  have "sorted (map (\<lambda>r. - h_timestamp r) (take n ?S @ drop n ?S))"
    by (simp add: by_timestamp_desc_def)
  then have "- h_timestamp r \<le> - h_timestamp e"
    unfolding map_append sorted_append using assms by auto
  then show ?thesis by simp
qed

lemma user_rows_delete_old:
  "user_rows (delete_old_history d u u) u =
     filter (\<lambda>r. h_id r \<in> set (recent_ids d u)) (user_rows d u)"
  by (auto simp: delete_old_history_def user_rows_def intro: filter_cong)

lemma user_rows_delete_old_other:
  "v \<noteq> u \<Longrightarrow> user_rows (delete_old_history d u u) v = user_rows d v"
  by (auto simp: delete_old_history_def user_rows_def intro: filter_cong)

lemma recent_ids_user_rows:
  "recent_ids d u = map h_id (take 50 (by_timestamp_desc (user_rows d u)))"
  by (simp add: recent_ids_def user_rows_def)

lemma user_rows_ids:
  assumes "distinct (map h_id (user_history d))"
  shows "distinct (user_rows d u)" and "inj_on h_id (set (user_rows d u))"
proof -
  have "distinct (map h_id (user_rows d u))"
    using assms by (simp add: user_rows_def distinct_map_filter)
  then show "distinct (user_rows d u)" and "inj_on h_id (set (user_rows d u))"
    by (simp_all add: distinct_map)
qed

lemma kept_rows_set:
  assumes "distinct (map h_id (user_history d))"
  shows "set (user_rows (delete_old_history d u u) u) =
           set (take 50 (by_timestamp_desc (user_rows d u)))"
proof -
  let ?R = "user_rows d u"
  let ?K = "take 50 (by_timestamp_desc ?R)"
  have sub: "set ?K \<subseteq> set ?R"
    using set_take_subset [of 50 "by_timestamp_desc ?R"] by simp
  have inj: "inj_on h_id (set ?R)"
    using assms by (rule user_rows_ids)
  have "h_id r \<in> h_id ` set ?K \<longleftrightarrow> r \<in> set ?K" if "r \<in> set ?R" for r
    using that sub inj by (auto dest: inj_onD)
  then show ?thesis
    using sub by (auto simp: user_rows_delete_old recent_ids_user_rows)
qed

lemma kept_rows_length:
  assumes "distinct (map h_id (user_history d))"
  shows "length (user_rows (delete_old_history d u u) u) = min 50 (length (user_rows d u))"
proof -
  let ?R = "user_rows d u"
  let ?K = "take 50 (by_timestamp_desc ?R)"
  have dR: "distinct ?R"
    using assms by (rule user_rows_ids)
  have "distinct (user_rows (delete_old_history d u u) u)"
    using dR by (simp add: user_rows_delete_old)
  moreover have "distinct ?K"
    using dR by simp
  ultimately have "length (user_rows (delete_old_history d u u) u) = length ?K"
    using kept_rows_set [OF assms, of u] by (metis distinct_card)
  then show ?thesis by (simp add: min.commute)
qed



lemma numbered_row_fields [simp]:
  "h_id (numbered_row n) = n"
  "h_user_id (numbered_row n) = ''u1''"
  "h_item_id (numbered_row n) = ''item-'' @ replicate n CHR ''i''"
  "h_timestamp (numbered_row n) = 1000 * int n"
  by (simp_all add: numbered_row_def sample_row_def)

lemma full_db_ok: "db_ok full_db"
  by (simp add: db_ok_def full_db_def empty_db_def distinct_map comp_def inj_on_def list_all_iff)

lemma full_db_rows: "user_rows full_db ''u1'' = map numbered_row [1..<51]"
  by (simp add: user_rows_def full_db_def filter_map comp_def)


lemma post_history_saved:
  assumes "upsert_history now d (insert_values now u item) = Inr d1"
  shows "post_history now d u item =
           (delete_old_history d1 u u, \<lparr>status = 200, body = Saved (length (user_rows d1 u))\<rparr>)"
  using assms
  by (simp add: post_history_def count_history_def matching_rows_def bind_err_def user_rows_def)

lemma post_history_accepted:
  assumes "status (snd (post_history now d u item)) = 200"
  shows "\<exists>d1. upsert_history now d (insert_values now u item) = Inr d1"
  using assms
  by (cases "upsert_history now d (insert_values now u item)")
     (auto simp: post_history_def split: prod.splits)

lemma proposed_row_user:
  assumes "proposed_row now n (insert_values now u item) = Inr new" and "length u \<le> 255"
  shows "h_user_id new = u"
  using proposed_row_keys(1) [OF assms(1)] varchar_null_fits [OF assms(2)]
  by (simp add: insert_values_def)

lemma upsert_history_fresh:
  assumes "proposed_row now (user_history_seq d) v = Inr new"
    and "\<not> list_ex (\<lambda>r. h_item_id r = h_item_id new) (user_history d)"
  shows "upsert_history now d v =
           Inr (d\<lparr>user_history := user_history d @ [new],
                  user_history_seq := Suc (user_history_seq d)\<rparr>)"
  using assms by (simp add: upsert_history_def bind_err_def)


lemma evict_one:
  assumes "db_ok d" and "length (user_rows d u) = 50" and "length u \<le> 255"
    and "proposed_row now (user_history_seq d) (insert_values now u item) = Inr new"
    and "\<not> list_ex (\<lambda>r. h_item_id r = h_item_id new) (user_history d)"
  shows "\<exists>e \<in> set (new # user_rows d u).
           set (user_rows (fst (post_history now d u item)) u) = set (new # user_rows d u) - {e} \<and>
           length (user_rows (fst (post_history now d u item)) u) = 50 \<and>
           (\<forall>r \<in> set (user_rows (fst (post_history now d u item)) u).
              h_timestamp e \<le> h_timestamp r)"
proof -
  define d1 where "d1 = d\<lparr>user_history := user_history d @ [new],
                          user_history_seq := Suc (user_history_seq d)\<rparr>"
  have up: "upsert_history now d (insert_values now u item) = Inr d1"
    unfolding d1_def using assms(4,5) by (rule upsert_history_fresh)
  have ok1: "db_ok d1"
    using assms(1) up by (rule upsert_history_ok)
  then have ids: "distinct (map h_id (user_history d1))"
    by (simp add: db_ok_def)
  have rows1: "user_rows d1 u = user_rows d u @ [new]"
    using proposed_row_user [OF assms(4,3)] by (simp add: d1_def user_rows_def)
  have post: "fst (post_history now d u item) = delete_old_history d1 u u"
    using post_history_saved [OF up] by simp
  let ?S = "by_timestamp_desc (user_rows d1 u)"
  have len: "length ?S = 51"
    using rows1 assms(2) by simp
  then have "length (drop 50 ?S) = 1"
    by simp
  then obtain e where e: "drop 50 ?S = [e]"
    by (cases "drop 50 ?S") auto
  have split: "?S = take 50 ?S @ [e]"
    using e append_take_drop_id [of 50 ?S] by simp
  have dS: "distinct ?S"
    using user_rows_ids(1) [OF ids, of u] by simp
  have "e \<notin> set (take 50 ?S)"
    using dS split by (metis distinct_append disjoint_iff list.set_intros(1))
  moreover have "set ?S = insert e (set (take 50 ?S))"
    using split by (metis Un_insert_right append_Nil2 list.simps(15) set_append)
  ultimately have kept: "set (take 50 ?S) = set (user_rows d1 u) - {e}"
    by auto
  have "e \<in> set (new # user_rows d u)"
    using split rows1 by (metis by_timestamp_desc_set in_set_conv_decomp list.set_intros(1) set_ConsD set_append rotate1.simps(2) set_rotate1)
  moreover have "set (user_rows (fst (post_history now d u item)) u) = set (new # user_rows d u) - {e}"
    using kept kept_rows_set [OF ids, of u] rows1 post by auto
  moreover have "length (user_rows (fst (post_history now d u item)) u) = 50"
    using kept_rows_length [OF ids, of u] rows1 assms(2) post by simp
  moreover have "h_timestamp e \<le> h_timestamp r"
    if "r \<in> set (user_rows (fst (post_history now d u item)) u)" for r
  proof -
    have "r \<in> set (take 50 ?S)"
      using that kept_rows_set [OF ids, of u] post by simp
    moreover have "e \<in> set (drop 50 ?S)"
      using e by simp
    ultimately show ?thesis
      by (rule by_timestamp_desc_newer)
  qed
  ultimately show ?thesis by blast
qed


text \<open>
  C2, amended.  In the PostgreSQL server at most 50 records of the user are retained
  after every append that the store accepts; an append with a new item id for a user who
  has 50 records leaves 50, evicting one record, and no retained record is older by
  timestamp than the evicted one (the appended record itself when it is the oldest).
  In the flat-file server the cap is 200 and the records kept are the 200 appended last,
  whatever their timestamps.
\<close>

theorem history_retention:
  assumes "db_ok d"
  shows "(status (snd (post_history now d u item)) = 200 \<longrightarrow>
            length (user_rows (fst (post_history now d u item)) u) \<le> 50) \<and>
         (length (user_rows d u) = 50 \<and> length u \<le> 255 \<and>
          proposed_row now (user_history_seq d) (insert_values now u item) = Inr new \<and>
          \<not> list_ex (\<lambda>r. h_item_id r = h_item_id new) (user_history d) \<longrightarrow>
            (\<exists>e \<in> set (new # user_rows d u).
               set (user_rows (fst (post_history now d u item)) u) =
                 set (new # user_rows d u) - {e} \<and>
               length (user_rows (fst (post_history now d u item)) u) = 50 \<and>
               (\<forall>r \<in> set (user_rows (fst (post_history now d u item)) u).
                  h_timestamp e \<le> h_timestamp r))) \<and>
         read_history (fst (file_post_history fs u item)) u = take 200 (item # read_history fs u)"
proof -
  have "length (user_rows (fst (post_history now d u item)) u) \<le> 50"
    if "status (snd (post_history now d u item)) = 200"
  proof -
    from post_history_accepted [OF that] obtain d1 where
      up: "upsert_history now d (insert_values now u item) = Inr d1" by blast
    have "distinct (map h_id (user_history d1))"
      using upsert_history_ok [OF assms up] by (simp add: db_ok_def)
    then show ?thesis
      using kept_rows_length [of d1 u] post_history_saved [OF up] by simp
  qed
  moreover have "read_history (fst (file_post_history fs u item)) u =
                 take 200 (item # read_history fs u)"
    by (simp add: file_post_history_def read_history_def Let_def)
  ultimately show ?thesis
    using evict_one [OF assms, of u now item new] by blast
qed

lemma new_row_proposed:
  "proposed_row 60000 (user_history_seq full_db) (insert_values 60000 ''u1'' new_item) = Inr new_row"
  by (simp add: proposed_row_def insert_values_def new_item_def sample_item_def new_row_def
        full_db_def empty_db_def bind_err_def not_null_def varchar_def varchar_null_def
        integer_null_def)

lemma new_row_fresh:
  "\<not> list_ex (\<lambda>r. h_item_id r = h_item_id new_row) (user_history full_db)"
  by (simp add: list_ex_iff full_db_def new_row_def)

theorem history_retention_witness:
  "db_ok full_db \<and> length (user_rows full_db ''u1'') = 50 \<and>
   status (snd (post_history 60000 full_db ''u1'' new_item)) = 200 \<and>
   length (user_rows (fst (post_history 60000 full_db ''u1'' new_item)) ''u1'') = 50 \<and>
   numbered_row 1 \<notin> set (user_rows (fst (post_history 60000 full_db ''u1'' new_item)) ''u1'') \<and>
   new_row \<in> set (user_rows (fst (post_history 60000 full_db ''u1'' new_item)) ''u1'')"
proof -
  let ?after = "user_rows (fst (post_history 60000 full_db ''u1'' new_item)) ''u1''"
  have up: "upsert_history 60000 full_db (insert_values 60000 ''u1'' new_item) =
            Inr (full_db\<lparr>user_history := user_history full_db @ [new_row],
                         user_history_seq := Suc (user_history_seq full_db)\<rparr>)"
    using new_row_proposed new_row_fresh by (rule upsert_history_fresh)
  have accepted: "status (snd (post_history 60000 full_db ''u1'' new_item)) = 200"
    using post_history_saved [OF up] by simp
  have fifty: "length (user_rows full_db ''u1'') = 50"
    by (simp add: full_db_rows)
  note retention = history_retention [OF full_db_ok, of 60000 "''u1''" new_item new_row]
  have "\<exists>e \<in> set (new_row # user_rows full_db ''u1'').
          set ?after = set (new_row # user_rows full_db ''u1'') - {e} \<and>
          length ?after = 50 \<and> (\<forall>r \<in> set ?after. h_timestamp e \<le> h_timestamp r)"
  proof (rule mp [OF retention [THEN conjunct2, THEN conjunct1]])
    show "length (user_rows full_db ''u1'') = 50 \<and> length ''u1'' \<le> 255 \<and>
          proposed_row 60000 (user_history_seq full_db) (insert_values 60000 ''u1'' new_item) =
            Inr new_row \<and>
          \<not> list_ex (\<lambda>r. h_item_id r = h_item_id new_row) (user_history full_db)"
      using fifty new_row_proposed new_row_fresh by simp
  qed
  then obtain e where e: "e \<in> set (new_row # user_rows full_db ''u1'')"
    and kept: "set ?after = set (new_row # user_rows full_db ''u1'') - {e}"
    and len: "length ?after = 50"
    and old: "\<forall>r \<in> set ?after. h_timestamp e \<le> h_timestamp r"
    by blast
  have first: "numbered_row 1 \<in> set (user_rows full_db ''u1'')"
    by (simp add: full_db_rows)
  have least: "1000 \<le> h_timestamp r" if "r \<in> set (new_row # user_rows full_db ''u1'')" for r
    using that by (auto simp: full_db_rows new_row_def)
  have "e = numbered_row 1"
  proof (rule ccontr)
    assume ne: "e \<noteq> numbered_row 1"
    then have "numbered_row 1 \<in> set ?after"
      using kept first by auto
    then have "h_timestamp e \<le> 1000"
      using old by fastforce
    then have ts: "h_timestamp e = 1000"
      using least [OF e] by simp
    have "e \<in> set (user_rows full_db ''u1'')"
      using e ts by (auto simp: new_row_def)
    then obtain n where "e = numbered_row n" "1 \<le> n"
      by (auto simp: full_db_rows)
    with ts ne show False
      by (cases "n = 1") auto
  qed
  moreover have "new_row \<noteq> numbered_row 1"
    by (simp add: new_row_def numbered_row_def sample_row_def)
  ultimately show ?thesis
    using full_db_ok fifty accepted len kept by auto
qed

text \<open>
  C2 as stated fails: in the flat-file server a user with 50 records has 51 after the
  next append.
\<close>

theorem file_retention_counterexample:
  "length (read_history fifty_files ''u1'') = 50 \<and>
   length (read_history (fst (file_post_history fifty_files ''u1'' new_item)) ''u1'') = 51"
  by (simp add: file_post_history_def read_history_def fifty_files_def Let_def)

text \<open>
  C5.  The PostgreSQL server counts the user's records before it deletes the old ones:
  for the user of \<open>full_db\<close>, who has 50 records, the append of a record with a new id
  is answered with \<^verbatim>\<open>totalItems: 51\<close> while 50 records are retained.  The flat-file server
  reports the length of the history after the cut.
\<close>

theorem post_history_count_before_delete:
  "length (user_rows full_db ''u1'') = 50 \<and>
   snd (post_history 60000 full_db ''u1'' new_item) = \<lparr>status = 200, body = Saved 51\<rparr> \<and>
   length (user_rows (fst (post_history 60000 full_db ''u1'' new_item)) ''u1'') = 50 \<and>
   f_body (snd (file_post_history fs u item)) =
     FileSaved (length (read_history (fst (file_post_history fs u item)) u))"
proof -
  let ?d1 = "full_db\<lparr>user_history := user_history full_db @ [new_row],
                       user_history_seq := Suc (user_history_seq full_db)\<rparr>"
  have up: "upsert_history 60000 full_db (insert_values 60000 ''u1'' new_item) = Inr ?d1"
    using new_row_proposed new_row_fresh by (rule upsert_history_fresh)
  have rows1: "length (user_rows ?d1 ''u1'') = 51"
    using full_db_rows by (simp add: user_rows_def new_row_def)
  have "distinct (map h_id (user_history ?d1))"
    using upsert_history_ok [OF full_db_ok up] by (simp add: db_ok_def)
  then have "length (user_rows (delete_old_history ?d1 ''u1'' ''u1'') ''u1'') = 50"
    using kept_rows_length [of ?d1 "''u1''"] rows1 by simp
  then show ?thesis
    using post_history_saved [OF up] rows1 full_db_rows
    by (simp add: file_post_history_def read_history_def Let_def)
qed









section \<open>Properties of the history query\<close>



lemma like_match_any [simp]: "like_match [AnySeq] t"
  by (induction t) simp_all





lemma trim_Nil [simp]: "trim [] = []"
  by (simp add: trim_def)

lemma parseInt_Nil [simp]: "parseInt [] = None"
  by (simp add: parseInt_def parse_digits_def)



lemma js_slice_page:
  assumes "0 \<le> p" and "0 \<le> n"
  shows "js_slice xs (js_mul (Some p) (Some n)) (js_add (js_mul (Some p) (Some n)) (Some n)) =
           page_window p n xs"
proof -
  define s where "s = nat (p * n)"
  define k where "k = min s (length xs)"
  define final where "final = min (s + nat n) (length xs)"
  have nonneg: "0 \<le> p * n" using assms by simp
  have signs: "\<not> p * n < 0" "\<not> p * n + n < 0"
    using nonneg assms(2) by linarith+
  have slice: "js_slice xs (js_mul (Some p) (Some n)) (js_add (js_mul (Some p) (Some n)) (Some n)) =
               take (final - k) (drop k xs)"
    by (simp add: js_slice_def js_mul_def js_add_def slice_index_def k_def final_def s_def
          nat_add_distrib [OF nonneg assms(2)] signs Let_def)
  have "take (final - k) (drop k xs) = take (nat n) (drop s xs)"
  proof (cases "s < length xs")
    case True
    then have "final - k = min (nat n) (length (drop s xs))" and "k = s"
      by (auto simp: final_def k_def)
    then show ?thesis
      by (simp add: take_take [symmetric] del: take_take length_drop)
  next
    case False
    then show ?thesis by (simp add: k_def)
  qed
  then show ?thesis
    using slice by (simp add: page_window_def s_def)
qed


lemma parseInt_defaults [simp]: "parseInt ''0'' = Some 0" "parseInt ''10'' = Some 10"
  by (simp_all add: parseInt_def parse_digits_def is_digit_def digit_val_def is_ws_def)

lemma get_history_all:
  assumes "matching_rows d u (search_pattern search) = Inr rows"
  shows "get_history d u \<lparr>q_page = None, q_limit = Some ''all'', q_search = Some search\<rparr> =
           \<lparr>status = 200,
            body = HistoryPage (map format_item (by_timestamp_desc rows))
                     (ceil_div (length rows) (Some (int (length rows)))) (Some 0) (length rows)\<rparr>"
  using assms
  by (simp add: get_history_def select_history_def count_history_def bind_err_def)


lemma file_get_history_page:
  assumes "list_all (\<lambda>item. prompt_includes (toLowerCase search) item \<noteq> None) (read_history fs u)"
    and "parseInt limit = Some n" and "0 \<le> n" and "parseInt page = Some p" and "0 \<le> p"
  shows "file_get_history fs u \<lparr>q_page = Some page, q_limit = Some limit, q_search = Some search\<rparr> =
           \<lparr>f_status = 200,
            f_body = FilePage
              (page_window p n
                 (filter (\<lambda>item. search = [] \<or> prompt_includes (toLowerCase search) item = Some True)
                    (read_history fs u)))
              (ceil_div
                 (length (filter (\<lambda>item. search = [] \<or>
                                     prompt_includes (toLowerCase search) item = Some True)
                            (read_history fs u)))
                 (Some n))
              (Some p) (length (read_history fs u))\<rparr>"
proof -
  have "\<not> list_ex (\<lambda>item. prompt_includes (toLowerCase search) item = None) (read_history fs u)"
    using assms(1) by (auto simp: list_all_iff list_ex_iff)
  then show ?thesis
    using assms(2,4)
    by (simp add: file_get_history_def Let_def js_slice_page [OF assms(5,3)])
qed



lemma file_get_history_defaults:
  "file_get_history fs u \<lparr>q_page = pg, q_limit = lim, q_search = se\<rparr> =
     file_get_history fs u
       \<lparr>q_page = Some (case pg of None \<Rightarrow> ''0'' | Some p \<Rightarrow> p),
        q_limit = Some (case lim of None \<Rightarrow> ''10'' | Some l \<Rightarrow> l),
        q_search = Some (case se of None \<Rightarrow> [] | Some s \<Rightarrow> s)\<rparr>"
  by (simp add: file_get_history_def)




text \<open>
  C6.  With \<^verbatim>\<open>limit=all\<close> and no matching record the PostgreSQL server divides 0 by 0:
  the response carries \<^verbatim>\<open>totalPages: null\<close>, not 1 (nor 0).  The flat-file server reports
  as \<^verbatim>\<open>totalItems\<close> the length of the whole history, not the number of records that
  match: 2 for a search that one of two records matches.
\<close>

theorem history_totals_failing:
  "get_history empty_db ''u1'' \<lparr>q_page = None, q_limit = Some ''all'', q_search = None\<rparr> =
     \<lparr>status = 200, body = HistoryPage [] None (Some 0) 0\<rparr> \<and>
   file_get_history two_files ''u1'' \<lparr>q_page = None, q_limit = None, q_search = Some ''cat''\<rparr> =
     \<lparr>f_status = 200,
      f_body = FilePage [sample_item ''item-1'' ''a red cat'' 1000] (Some 1) (Some 0) 2\<rparr>"
proof -
  have none: "matching_rows empty_db ''u1'' (search_pattern []) = Inr []"
    by (simp add: matching_rows_def search_pattern_def empty_db_def)
  have "get_history empty_db ''u1'' \<lparr>q_page = None, q_limit = Some ''all'', q_search = Some []\<rparr> =
          \<lparr>status = 200, body = HistoryPage [] None (Some 0) 0\<rparr>"
    using get_history_all [OF none] by (simp add: ceil_div_def by_timestamp_desc_def)
  then have pg: "get_history empty_db ''u1'' \<lparr>q_page = None, q_limit = Some ''all'', q_search = None\<rparr> =
          \<lparr>status = 200, body = HistoryPage [] None (Some 0) 0\<rparr>"
    by (simp add: get_history_def)
  have lower: "toLowerCase ''a red cat'' = ''a red cat''" "toLowerCase ''cat'' = ''cat''"
    "toLowerCase ''a blue dog'' = ''a blue dog''"
    by (simp_all add: toLowerCase_def lower_char_def)
  have history: "read_history two_files ''u1'' =
                 [sample_item ''item-2'' ''a blue dog'' 2000, sample_item ''item-1'' ''a red cat'' 1000]"
    by (simp add: read_history_def two_files_def)
  have hits: "prompt_includes ''cat'' (sample_item ''item-2'' ''a blue dog'' 2000) = Some False"
    "prompt_includes ''cat'' (sample_item ''item-1'' ''a red cat'' 1000) = Some True"
    by (simp_all add: prompt_includes_def sample_item_def lower)
  have "file_get_history two_files ''u1'' \<lparr>q_page = Some ''0'', q_limit = Some ''10'', q_search = Some ''cat''\<rparr> =
          \<lparr>f_status = 200,
           f_body = FilePage [sample_item ''item-1'' ''a red cat'' 1000] (Some 1) (Some 0) 2\<rparr>"
  proof -
    have strings: "list_all (\<lambda>item. prompt_includes (toLowerCase ''cat'') item \<noteq> None)
                     (read_history two_files ''u1'')"
      by (simp add: history hits lower del: not_None_eq)
    show ?thesis
      using file_get_history_page [OF strings, of "''10''" 10 "''0''" 0]
      by (simp add: history hits lower ceil_div_def page_window_def)
  qed
  then show ?thesis
    using pg by (simp add: file_get_history_defaults [of _ _ None])
qed

section \<open>The handlers keep the schema's guarantees\<close>

lemma empty_db_ok: "db_ok empty_db"
  by (simp add: db_ok_def empty_db_def)

lemma delete_old_history_ok: "db_ok d \<Longrightarrow> db_ok (delete_old_history d u v)"
  by (auto simp: db_ok_def delete_old_history_def distinct_map_filter list_all_iff)

lemma keep_client_ok [simp]: "db_ok (keep_client d) = db_ok d"
  by (simp add: db_ok_def keep_client_def)

lemma upsert_history_refused_ok:
  assumes "db_ok d" and "upsert_history now d v = Inl (e, d0)"
  shows "db_ok d0"
proof -
  from upsert_history_Inl [OF assms(2)] have
    rows: "user_history d0 = user_history d" "license_usage d0 = license_usage d" and
    seq: "user_history_seq d \<le> user_history_seq d0"
    by auto
  have "list_all (\<lambda>r. h_id r < user_history_seq d0) (user_history d)"
    using assms(1) seq by (auto simp: db_ok_def list_all_iff)
  then show ?thesis
    using assms(1) rows by (simp add: db_ok_def)
qed

lemma post_history_ok:
  assumes "db_ok d"
  shows "db_ok (fst (post_history now d u item))"
proof (cases "upsert_history now d (insert_values now u item)")
  case (Inl x)
  obtain e d0 where x: "x = (e, d0)"
    by (cases x)
  from upsert_history_refused_ok [OF assms Inl [unfolded x]] show ?thesis
    using Inl x by (simp add: post_history_def)
next
  case (Inr d1)
  then show ?thesis
    using post_history_saved [OF Inr] upsert_history_ok [OF assms Inr]
    by (simp add: delete_old_history_ok)
qed

lemma update_frame_ok:
  assumes "db_ok d"
  shows "db_ok (fst (update_frame d u b))"
proof -
  have "db_ok d1" if "update_frame_id d f us i = Inr (d1, n)" for f us i d1 n
  proof -
    from that have
      "map h_id (user_history d1) = map h_id (user_history d)"
      "map h_item_id (user_history d1) = map h_item_id (user_history d)"
      "user_history_seq d1 = user_history_seq d" "license_usage d1 = license_usage d"
      by (auto simp: update_frame_id_def bind_err_Inr Let_def)
    moreover have "list_all (\<lambda>r. h_id r < user_history_seq d) (user_history d1)"
    proof -
      have "list_all (\<lambda>n. n < user_history_seq d) (map h_id (user_history d))"
        using assms by (simp add: db_ok_def list_all_iff)
      then have "list_all (\<lambda>n. n < user_history_seq d) (map h_id (user_history d1))"
        using calculation(1) by simp
      then show ?thesis
        by (simp add: list_all_iff)
    qed
    ultimately show ?thesis
      using assms by (simp add: db_ok_def)
  qed
  then show ?thesis
    using assms by (auto simp: update_frame_def split: sum.splits prod.splits)
qed

lemma insert_license_ok:
  assumes "db_ok d" and "insert_license now d key user product tier flowers data = Inr d1"
  shows "db_ok d1"
proof -
  from assms(2) obtain row where
    fresh: "\<not> list_ex (\<lambda>r. l_license_key r = l_license_key row) (license_usage d)" and
    d1: "d1 = d\<lparr>license_usage := license_usage d @ [row],
                  license_usage_seq := Suc (license_usage_seq d)\<rparr>"
    by (auto simp: insert_license_def split: sum.splits if_splits)
  from fresh have "l_license_key row \<notin> l_license_key ` set (license_usage d)"
    by (auto simp: list_ex_iff)
  then show ?thesis
    using assms(1) d1 by (simp add: db_ok_def)
qed

lemma insert_license_refused_ok:
  assumes "db_ok d" and "insert_license now d key user product tier flowers data = Inl (e, d0)"
  shows "db_ok d0"
  using assms(1) insert_license_Inl [OF assms(2)] by (simp add: db_ok_def)

lemma verify_license_ok:
  assumes "db_ok d"
  shows "db_ok (fst (verify_license toLocaleDateString token gumroad now d b))"
  using assms insert_license_ok [OF assms] insert_license_refused_ok [OF assms]
  by (auto simp: verify_license_def license_record_def
           split: sum.splits prod.splits fetch_result.splits)

end
